theory Spec2Isabelle
  imports Complex_Main
begin

section \<open>JavaScript values the handlers work on\<close>

text \<open>
  A JavaScript string is modelled as a \<^typ>\<open>string\<close>: one \<^typ>\<open>char\<close> per UTF-16 code unit,
  for the code units below 256. A JavaScript number is modelled as a \<^typ>\<open>real\<close>: the
  arithmetic of the source is read exactly, the rounding of IEEE doubles is outside the model.
  Where a number is parsed from text, the two ends of the range of doubles are modelled too
  (see \<open>toNumber\<close>): a value too small becomes 0, a value too large becomes \<open>Infinity\<close>.

  The lookup tables of the source are object literals. \<open>table[key]\<close> and \<open>key in table\<close> on an
  object literal also find the members every object inherits from \<open>Object.prototype\<close>, so a
  lookup answers with a declared entry, with an inherited member, or with \<open>undefined\<close>.
\<close>

datatype 'a jsvalue =
    Val 'a              \<comment> \<open>a value of the declared type\<close>
  | Inherited string    \<comment> \<open>the member of \<open>Object.prototype\<close> of that name (a function or object)\<close>

definition objectPrototypeKeys :: "string list" where
  "objectPrototypeKeys =
     [''constructor'', ''__defineGetter__'', ''__defineSetter__'', ''hasOwnProperty'',
      ''__lookupGetter__'', ''__lookupSetter__'', ''isPrototypeOf'', ''propertyIsEnumerable'',
      ''toString'', ''valueOf'', ''__proto__'', ''toLocaleString'']"

text \<open>\<open>table[key]\<close> for an object literal whose own entries are the association list \<open>tbl\<close>.\<close>

definition getProperty :: "(string \<times> 'a) list \<Rightarrow> string \<Rightarrow> 'a jsvalue option" where
  "getProperty tbl key =
     (case map_of tbl key of
        Some v \<Rightarrow> Some (Val v)
      | None \<Rightarrow> if key \<in> set objectPrototypeKeys then Some (Inherited key) else None)"

text \<open>\<open>key in table\<close>.\<close>

definition hasProperty :: "(string \<times> 'a) list \<Rightarrow> string \<Rightarrow> bool" where
  "hasProperty tbl key \<longleftrightarrow> key \<in> set (map fst tbl) \<or> key \<in> set objectPrototypeKeys"

subsection \<open>Character classes and string builtins\<close>

definition isDigit :: "char \<Rightarrow> bool" where
  "isDigit c \<longleftrightarrow> c \<in> set ''0123456789''"

definition isLower :: "char \<Rightarrow> bool" where
  "isLower c \<longleftrightarrow> c \<in> set ''abcdefghijklmnopqrstuvwxyz''"

definition isUpper :: "char \<Rightarrow> bool" where
  "isUpper c \<longleftrightarrow> c \<in> set ''ABCDEFGHIJKLMNOPQRSTUVWXYZ''"

text \<open>\<open>\w\<close>: letters, digits and the underscore.\<close>

definition isWord :: "char \<Rightarrow> bool" where
  "isWord c \<longleftrightarrow> isLower c \<or> isUpper c \<or> isDigit c \<or> c = CHR ''_''"

text \<open>\<open>\s\<close>, also what \<open>trim\<close> strips: tab, LF, VT, FF, CR, space and the no-break space.\<close>

definition isSpace :: "char \<Rightarrow> bool" where
  "isSpace c \<longleftrightarrow> c \<in> {CHR 0x09, CHR 0x0A, CHR 0x0B, CHR 0x0C, CHR 0x0D, CHR 0x20, CHR 0xA0}"

text \<open>The dot of a regular expression: any character but a line terminator.\<close>

definition isDot :: "char \<Rightarrow> bool" where
  "isDot c \<longleftrightarrow> c \<noteq> CHR 0x0A \<and> c \<noteq> CHR 0x0D"

fun pairUp :: "string \<Rightarrow> string \<Rightarrow> (char \<times> char) list" where
  "pairUp (a # as) (b # bs) = (a, b) # pairUp as bs"
| "pairUp _ _ = []"

definition lowerUpper :: "(char \<times> char) list" where
  "lowerUpper = pairUp ''abcdefghijklmnopqrstuvwxyz'' ''ABCDEFGHIJKLMNOPQRSTUVWXYZ''"

text \<open>
  \<open>toUpperCase\<close> on one character; the source applies it to characters matched by \<open>\w\<close> only.
\<close>

definition toUpperChar :: "char \<Rightarrow> char" where
  "toUpperChar c = (case map_of lowerUpper c of Some u \<Rightarrow> u | None \<Rightarrow> c)"

text \<open>
  \<open>toLowerCase\<close>: the letters A to Z and, among the code units from 128 to 255, the capital
  letters U+00C0 to U+00DE (without the multiplication sign U+00D7), each moved to the small
  letter 32 places up.
\<close>

definition latin1Upper :: string where
  "latin1Upper =
     [CHR 0xC0, CHR 0xC1, CHR 0xC2, CHR 0xC3, CHR 0xC4, CHR 0xC5, CHR 0xC6, CHR 0xC7,
      CHR 0xC8, CHR 0xC9, CHR 0xCA, CHR 0xCB, CHR 0xCC, CHR 0xCD, CHR 0xCE, CHR 0xCF,
      CHR 0xD0, CHR 0xD1, CHR 0xD2, CHR 0xD3, CHR 0xD4, CHR 0xD5, CHR 0xD6, CHR 0xD8,
      CHR 0xD9, CHR 0xDA, CHR 0xDB, CHR 0xDC, CHR 0xDD, CHR 0xDE]"

definition latin1Lower :: string where
  "latin1Lower =
     [CHR 0xE0, CHR 0xE1, CHR 0xE2, CHR 0xE3, CHR 0xE4, CHR 0xE5, CHR 0xE6, CHR 0xE7,
      CHR 0xE8, CHR 0xE9, CHR 0xEA, CHR 0xEB, CHR 0xEC, CHR 0xED, CHR 0xEE, CHR 0xEF,
      CHR 0xF0, CHR 0xF1, CHR 0xF2, CHR 0xF3, CHR 0xF4, CHR 0xF5, CHR 0xF6, CHR 0xF8,
      CHR 0xF9, CHR 0xFA, CHR 0xFB, CHR 0xFC, CHR 0xFD, CHR 0xFE]"

definition toLowerChar :: "char \<Rightarrow> char" where
  "toLowerChar c =
     (case map_of (map (\<lambda>(l, u). (u, l)) lowerUpper @ pairUp latin1Upper latin1Lower) c of
        Some l \<Rightarrow> l
      | None \<Rightarrow> c)"

definition toLowerCase :: "string \<Rightarrow> string" where
  "toLowerCase s = map toLowerChar s"

definition trim :: "string \<Rightarrow> string" where
  "trim s = rev (dropWhile isSpace (rev (dropWhile isSpace s)))"

fun startsWith :: "string \<Rightarrow> string \<Rightarrow> bool" where
  "startsWith _ [] = True"
| "startsWith [] (k # ks) = False"
| "startsWith (c # cs) (k # ks) = (c = k \<and> startsWith cs ks)"

text \<open>\<open>s.includes(k)\<close>: \<open>k\<close> occurs in \<open>s\<close> as a contiguous substring.\<close>

fun includesStr :: "string \<Rightarrow> string \<Rightarrow> bool" where
  "includesStr [] k = (k = [])"
| "includesStr (c # cs) k = (startsWith (c # cs) k \<or> includesStr cs k)"

text \<open>\<open>s.split("\n")\<close>.\<close>

fun splitLines :: "string \<Rightarrow> string list" where
  "splitLines [] = [[]]"
| "splitLines (c # cs) =
     (if c = CHR 0x0A then [] # splitLines cs
      else (case splitLines cs of l # ls \<Rightarrow> (c # l) # ls | [] \<Rightarrow> [[c]]))"

subsection \<open>Regular expressions as backtracking matchers\<close>

text \<open>
  A piece of a regular expression is a function from the remaining input to the list of ways
  it can match a prefix of it, as pairs (matched text, rest), in the order in which the
  backtracking matcher of JavaScript tries them. A sequence of pieces is the list bind of its
  pieces, and the match the engine reports is the first element of the resulting list.
\<close>

text \<open>\<open>c*\<close> for a character class: longest first.\<close>

fun manyGreedy :: "(char \<Rightarrow> bool) \<Rightarrow> string \<Rightarrow> (string \<times> string) list" where
  "manyGreedy P [] = [([], [])]"
| "manyGreedy P (c # cs) =
     (if P c then map (\<lambda>(m, r). (c # m, r)) (manyGreedy P cs) else []) @ [([], c # cs)]"

text \<open>\<open>c*?\<close> for a character class: shortest first.\<close>

fun manyLazy :: "(char \<Rightarrow> bool) \<Rightarrow> string \<Rightarrow> (string \<times> string) list" where
  "manyLazy P [] = [([], [])]"
| "manyLazy P (c # cs) =
     ([], c # cs) # (if P c then map (\<lambda>(m, r). (c # m, r)) (manyLazy P cs) else [])"

text \<open>\<open>c+\<close> and \<open>c+?\<close>: one character of the class, then \<open>c*\<close> or \<open>c*?\<close>.\<close>

fun many1Greedy :: "(char \<Rightarrow> bool) \<Rightarrow> string \<Rightarrow> (string \<times> string) list" where
  "many1Greedy P [] = []"
| "many1Greedy P (c # cs) = (if P c then map (\<lambda>(m, r). (c # m, r)) (manyGreedy P cs) else [])"

fun many1Lazy :: "(char \<Rightarrow> bool) \<Rightarrow> string \<Rightarrow> (string \<times> string) list" where
  "many1Lazy P [] = []"
| "many1Lazy P (c # cs) = (if P c then map (\<lambda>(m, r). (c # m, r)) (manyLazy P cs) else [])"

text \<open>One character of a class, and a literal text.\<close>

fun oneOf :: "(char \<Rightarrow> bool) \<Rightarrow> string \<Rightarrow> (string \<times> string) list" where
  "oneOf P [] = []"
| "oneOf P (c # cs) = (if P c then [([c], cs)] else [])"

definition lit :: "string \<Rightarrow> string \<Rightarrow> (string \<times> string) list" where
  "lit k s = (if startsWith s k then [(k, drop (length k) s)] else [])"

text \<open>\<open>(\d+(?:\.\d+)?)\<close>: the digits, then the fraction if there is one, else nothing.\<close>

definition numberRx :: "string \<Rightarrow> (string \<times> string) list" where
  "numberRx s =
     List.bind (many1Greedy isDigit s) (\<lambda>(ds, r1).
       List.bind (lit ''.'' r1) (\<lambda>(dot, r2).
         List.bind (many1Greedy isDigit r2) (\<lambda>(fs, r3). [(ds @ dot @ fs, r3)]))
       @ [(ds, r1)])"

text \<open>
  The three patterns of \<open>extractMaterialsFromText\<close>, each giving its capture groups 1, 2, 3
  for every way of matching at the start of the input.
  \<^item> \<open>/(.+?):\s*(\d+(?:\.\d+)?)\s*(\w+)/\<close>
  \<^item> \<open>/(\d+(?:\.\d+)?)\s*(\w+)\s+(?:of\s+)?(.+)/\<close>
  \<^item> \<open>/(.+?)\s*[-...]\s*(\d+(?:\.\d+)?)\s*(\w+)/\<close>, whose class holds the hyphen and the
    characters U+00E2, U+20AC, U+201C; the hyphen and U+00E2 are code units below 256.
\<close>

definition pattern0 :: "string \<Rightarrow> (string \<times> string \<times> string) list" where
  "pattern0 s =
     List.bind (many1Lazy isDot s) (\<lambda>(g1, r1).
     List.bind (lit '':'' r1) (\<lambda>(_, r2).
     List.bind (manyGreedy isSpace r2) (\<lambda>(_, r3).
     List.bind (numberRx r3) (\<lambda>(g2, r4).
     List.bind (manyGreedy isSpace r4) (\<lambda>(_, r5).
     List.bind (many1Greedy isWord r5) (\<lambda>(g3, _). [(g1, g2, g3)]))))))"

definition pattern1 :: "string \<Rightarrow> (string \<times> string \<times> string) list" where
  "pattern1 s =
     List.bind (numberRx s) (\<lambda>(g1, r1).
     List.bind (manyGreedy isSpace r1) (\<lambda>(_, r2).
     List.bind (many1Greedy isWord r2) (\<lambda>(g2, r3).
     List.bind (many1Greedy isSpace r3) (\<lambda>(_, r4).
     List.bind
       (List.bind (lit ''of'' r4) (\<lambda>(_, r5). map snd (many1Greedy isSpace r5)) @ [r4])
       (\<lambda>r6.
     List.bind (many1Greedy isDot r6) (\<lambda>(g3, _). [(g1, g2, g3)]))))))"

definition isDash :: "char \<Rightarrow> bool" where
  "isDash c \<longleftrightarrow> c = CHR ''-'' \<or> c = CHR 0xE2"

definition pattern2 :: "string \<Rightarrow> (string \<times> string \<times> string) list" where
  "pattern2 s =
     List.bind (many1Lazy isDot s) (\<lambda>(g1, r1).
     List.bind (manyGreedy isSpace r1) (\<lambda>(_, r2).
     List.bind (oneOf isDash r2) (\<lambda>(_, r3).
     List.bind (manyGreedy isSpace r3) (\<lambda>(_, r4).
     List.bind (numberRx r4) (\<lambda>(g2, r5).
     List.bind (manyGreedy isSpace r5) (\<lambda>(_, r6).
     List.bind (many1Greedy isWord r6) (\<lambda>(g3, _). [(g1, g2, g3)])))))))"

text \<open>
  \<open>line.match(pattern)\<close> for a pattern without the global flag: the first start position, from
  the left, at which the pattern matches, with the first way of matching there; \<open>null\<close>
  (\<open>None\<close>) when there is none.
\<close>

fun matchRx :: "(string \<Rightarrow> 'a list) \<Rightarrow> string \<Rightarrow> 'a option" where
  "matchRx p [] = (case p [] of m # _ \<Rightarrow> Some m | [] \<Rightarrow> None)"
| "matchRx p (c # cs) = (case p (c # cs) of m # _ \<Rightarrow> Some m | [] \<Rightarrow> matchRx p cs)"

section \<open>Material extraction (analyze-construction/route.ts)\<close>

text \<open>
  A number that comes out of \<open>parseFloat\<close>: a finite value or \<open>Infinity\<close> (\<open>NaN\<close> is the
  \<open>None\<close> of an option around it).
\<close>

datatype number = Finite real | Infinity

text \<open>\<open>n > 0\<close>\<close>

fun isPositive :: "number \<Rightarrow> bool" where
  "isPositive (Finite x) = (0 < x)"
| "isPositive Infinity = True"

text \<open>
  The Number value of a mathematical value \<open>v \<ge> 0\<close> (round to nearest, ties to even). The least
  positive double is \<open>2^-1074\<close>: a value up to half of it becomes 0. The largest double is
  \<open>2^1024 - 2^971\<close>: a value from \<open>2^1024 - 2^970\<close> on becomes \<open>Infinity\<close>. Between the two
  the nearest double is read as the value itself.
\<close>

definition toNumber :: "real \<Rightarrow> number" where
  "toNumber v =
     (if v * 2 ^ 1075 \<le> 1 then Finite 0
      else if 2 ^ 1024 - 2 ^ 970 \<le> v then Infinity
      else Finite v)"

record Material =
  name :: string
  quantity :: number
  unit :: "string jsvalue"
  unitPrice :: real
  totalPrice :: real

text \<open>
  \<open>Number.parseFloat\<close> on an unsigned decimal literal: the leading digits and, after a dot, the
  fraction digits; \<open>NaN\<close> (\<open>None\<close>) when there is no digit. Its argument in the source is always
  the capture of \<open>\d+(?:\.\d+)?\<close>, so signs, exponents and leading blanks do not arise.
\<close>

definition digitVal :: "char \<Rightarrow> nat" where
  "digitVal c =
     (case map_of (zip ''0123456789'' [0, 1, 2, 3, 4, 5, 6, 7, 8, 9]) c of
        Some d \<Rightarrow> d | None \<Rightarrow> 0)"

definition decimalNat :: "string \<Rightarrow> nat" where
  "decimalNat ds = foldl (\<lambda>n c. 10 * n + digitVal c) 0 ds"

definition parseFloat :: "string \<Rightarrow> number option" where
  "parseFloat s =
     (let ip = takeWhile isDigit s;
          fp = (case dropWhile isDigit s of
                  c # r \<Rightarrow> if c = CHR ''.'' then takeWhile isDigit r else []
                | [] \<Rightarrow> [])
      in if ip = [] \<and> fp = [] then None
         else Some (toNumber (real (decimalNat ip) + real (decimalNat fp) / 10 ^ length fp)))"

text \<open>\<open>name.replace(/^\d+\.?\s*/, "")\<close>\<close>

definition stripNumbering :: "string \<Rightarrow> string" where
  "stripNumbering s =
     (case s of
        [] \<Rightarrow> []
      | c # _ \<Rightarrow>
          if isDigit c then
            (let r = dropWhile isDigit s;
                 r' = (case r of d # t \<Rightarrow> if d = CHR ''.'' then t else r | [] \<Rightarrow> [])
             in dropWhile isSpace r')
          else s)"

text \<open>
  \<open>.replace(/^[-*...]\s*/, "")\<close>: the class holds the hyphen, the asterisk and the characters
  U+00E2, U+20AC, U+02D8.
\<close>

definition isBullet :: "char \<Rightarrow> bool" where
  "isBullet c \<longleftrightarrow> c = CHR ''-'' \<or> c = CHR ''*'' \<or> c = CHR 0xE2"

definition stripBullet :: "string \<Rightarrow> string" where
  "stripBullet s = (case s of [] \<Rightarrow> [] | c # t \<Rightarrow> if isBullet c then dropWhile isSpace t else s)"

text \<open>\<open>.replace(/:\s*$/, "")\<close>: the first colon after which only white space follows.\<close>

fun stripTrailingColon :: "string \<Rightarrow> string" where
  "stripTrailingColon [] = []"
| "stripTrailingColon (c # cs) =
     (if c = CHR '':'' \<and> list_all isSpace cs then [] else c # stripTrailingColon cs)"

text \<open>
  \<open>.replace(/\b\w/g, (l) => l.toUpperCase())\<close>: every word character that does not follow a
  word character is put in upper case.
\<close>

fun titleCase :: "bool \<Rightarrow> string \<Rightarrow> string" where
  "titleCase prev [] = []"
| "titleCase prev (c # cs) =
     (if isWord c \<and> \<not> prev then toUpperChar c else c) # titleCase (isWord c) cs"

definition cleanMaterialName :: "string \<Rightarrow> string" where
  "cleanMaterialName nm =
     titleCase False (trim (stripTrailingColon (stripBullet (stripNumbering nm))))"

definition unitMap :: "(string \<times> string) list" where
  "unitMap =
     [(''pc'', ''pieces''), (''pcs'', ''pieces''), (''piece'', ''pieces''), (''each'', ''pieces''),
      (''lb'', ''lbs''), (''pound'', ''lbs''), (''pounds'', ''lbs''),
      (''ft'', ''feet''), (''foot'', ''feet''),
      (''yd'', ''yards''), (''yard'', ''yards''),
      (''sqft'', ''sq ft''), (''square feet'', ''sq ft''),
      (''cuft'', ''cu ft''), (''cubic feet'', ''cu ft''),
      (''cuyd'', ''cu yd''), (''cubic yards'', ''cu yd'')]"

text \<open>\<open>unitMap[unit.toLowerCase()] || unit\<close>\<close>

definition standardizeUnit :: "string \<Rightarrow> string jsvalue" where
  "standardizeUnit u =
     (case getProperty unitMap (toLowerCase u) of
        Some (Val v) \<Rightarrow> if v \<noteq> [] then Val v else Val u
      | Some (Inherited k) \<Rightarrow> Inherited k
      | None \<Rightarrow> Val u)"

definition patterns :: "(string \<Rightarrow> (string \<times> string \<times> string) list) list" where
  "patterns = [pattern0, pattern1, pattern2]"

text \<open>
  The assignment of the capture groups: \<open>patterns[1]\<close> captures quantity, unit, name; the
  other two capture name, quantity, unit.
\<close>

definition matchFields :: "nat \<Rightarrow> string \<times> string \<times> string \<Rightarrow> string \<times> number option \<times> string" where
  "matchFields i g = (case g of (g1, g2, g3) \<Rightarrow>
     if i = 1 then (g3, parseFloat g1, g2) else (g1, parseFloat g2, g3))"

text \<open>\<open>name && quantity > 0 && unit\<close>\<close>

definition accepted :: "string \<times> number option \<times> string \<Rightarrow> bool" where
  "accepted f = (case f of (nm, q, u) \<Rightarrow>
     nm \<noteq> [] \<and> (case q of Some x \<Rightarrow> isPositive x | None \<Rightarrow> False) \<and> u \<noteq> [])"

definition mkMaterial :: "string \<times> number option \<times> string \<Rightarrow> Material" where
  "mkMaterial f = (case f of (nm, q, u) \<Rightarrow>
     \<lparr>name = cleanMaterialName nm, quantity = the q, unit = standardizeUnit u,
      unitPrice = 0, totalPrice = 0\<rparr>)"

text \<open>
  The inner loop \<open>for (const pattern of patterns)\<close> on one trimmed line, from the pattern of
  index \<open>i\<close> on: the line's material, if one is pushed. The \<open>break\<close> is inside the test of
  the three fields.
\<close>

fun tryPatterns ::
  "nat \<Rightarrow> (string \<Rightarrow> (string \<times> string \<times> string) list) list \<Rightarrow> string \<Rightarrow> Material option" where
  "tryPatterns i [] line = None"
| "tryPatterns i (p # ps) line =
     (case matchRx p line of
        None \<Rightarrow> tryPatterns (Suc i) ps line
      | Some g \<Rightarrow>
          if accepted (matchFields i g) then Some (mkMaterial (matchFields i g))
          else tryPatterns (Suc i) ps line)"

text \<open>The body of the outer loop for one line of the text.\<close>

definition extractLine :: "string \<Rightarrow> Material option" where
  "extractLine line =
     (let trimmedLine = trim line
      in if trimmedLine = [] \<or> length trimmedLine < 5 then None
         else tryPatterns 0 patterns trimmedLine)"

text \<open>The outer loop, with the array \<open>materials\<close> it pushes to.\<close>

fun extractLoop :: "string list \<Rightarrow> Material list \<Rightarrow> Material list" where
  "extractLoop [] materials = materials"
| "extractLoop (line # lines) materials =
     (case extractLine line of
        None \<Rightarrow> extractLoop lines materials
      | Some m \<Rightarrow> extractLoop lines (materials @ [m]))"

definition extractMaterialsFromText :: "string \<Rightarrow> Material list" where
  "extractMaterialsFromText text = take 50 (extractLoop (splitLines text) [])"

section \<open>Pricing (analyze-construction/route.ts)\<close>

definition priceDatabase :: "(string \<times> (string \<times> real) list) list" where
  "priceDatabase =
     [(''concrete'', [(''cu yd'', 120), (''cu ft'', 4.5)]),
      (''ready mix concrete'', [(''cu yd'', 120), (''cu ft'', 4.5)]),
      (''steel rebar'', [(''lbs'', 0.75), (''pieces'', 8.5)]),
      (''rebar'', [(''lbs'', 0.75), (''pieces'', 8.5)]),
      (''lumber'', [(''pieces'', 8.5), (''board ft'', 2.25)]),
      (''2x4 lumber'', [(''pieces'', 8.5)]),
      (''2x6 lumber'', [(''pieces'', 12.5)]),
      (''2x8 lumber'', [(''pieces'', 18.5)]),
      (''plywood'', [(''pieces'', 35), (''sq ft'', 1.25)]),
      (''hammer'', [(''pieces'', 25)]),
      (''drill'', [(''pieces'', 85)]),
      (''saw'', [(''pieces'', 150)]),
      (''circular saw'', [(''pieces'', 180)]),
      (''screwdriver'', [(''pieces'', 15)]),
      (''wrench'', [(''pieces'', 20)]),
      (''pliers'', [(''pieces'', 18)]),
      (''level'', [(''pieces'', 35)]),
      (''measuring tape'', [(''pieces'', 25)]),
      (''nails'', [(''lbs'', 3.5), (''pieces'', 0.05)]),
      (''screws'', [(''lbs'', 4.2), (''pieces'', 0.08)]),
      (''bolts'', [(''pieces'', 1.25)]),
      (''nuts'', [(''pieces'', 0.35)]),
      (''washers'', [(''pieces'', 0.15)]),
      (''drywall'', [(''pieces'', 15), (''sq ft'', 0.65)]),
      (''paint'', [(''gallons'', 45), (''pieces'', 45)]),
      (''tile'', [(''sq ft'', 4.25), (''pieces'', 2.15)]),
      (''insulation'', [(''sq ft'', 1.2), (''pieces'', 45)]),
      (''ladder'', [(''pieces'', 125)]),
      (''scaffolding'', [(''pieces'', 85)]),
      (''safety helmet'', [(''pieces'', 25)]),
      (''safety gloves'', [(''pieces'', 12)]),
      (''safety glasses'', [(''pieces'', 8)]),
      (''wire'', [(''feet'', 2.25), (''lbs'', 3.8)]),
      (''electrical wire'', [(''feet'', 2.25), (''lbs'', 3.8)]),
      (''outlet'', [(''pieces'', 8.5)]),
      (''switch'', [(''pieces'', 6.5)]),
      (''pipe'', [(''feet'', 4.8)]),
      (''pvc pipe'', [(''feet'', 4.8)]),
      (''fitting'', [(''pieces'', 3.25)]),
      (''valve'', [(''pieces'', 15.5)])]"

definition fallbackPrices :: "(string \<times> real) list" where
  "fallbackPrices =
     [(''pieces'', 10), (''lbs'', 2.5), (''feet'', 3.5), (''sq ft'', 2.8), (''cu ft'', 8.5),
      (''cu yd'', 85), (''gallons'', 35)]"

text \<open>What \<open>if (v)\<close> and \<open>v || d\<close> test on the result of a lookup in a table of numbers.\<close>

fun truthy :: "real jsvalue option \<Rightarrow> bool" where
  "truthy None = False"
| "truthy (Some (Val x)) = (x \<noteq> 0)"
| "truthy (Some (Inherited k)) = True"

text \<open>
  \<open>Object.keys(priceDatabase).find(...)\<close> walks the keys in the order of declaration (none of
  them is an array index).
\<close>

definition findMaterialKey :: "string \<Rightarrow> string option" where
  "findMaterialKey materialName =
     List.find (\<lambda>key. includesStr (toLowerCase materialName) (toLowerCase key))
       (map fst priceDatabase)"

definition getMarketPrice :: "string \<Rightarrow> string \<Rightarrow> real jsvalue" where
  "getMarketPrice materialName u =
     (let hit = (case findMaterialKey materialName of
                   None \<Rightarrow> None
                 | Some materialKey \<Rightarrow>
                     if materialKey = [] then None
                     else (case map_of priceDatabase materialKey of
                             None \<Rightarrow> None
                           | Some sub \<Rightarrow> getProperty sub u))
      in if truthy hit then the hit
         else (let fb = getProperty fallbackPrices u
               in if truthy fb then the fb else Val 5))"

section \<open>Quotation (analyze-construction/route.ts)\<close>

record QuotationResult =
  materials :: "Material list"
  subtotal :: real
  laborCost :: real
  equipmentCost :: real
  overhead :: real
  totalCost :: real
  projectName :: string
  date :: string

text \<open>
  \<open>videoName.replace(/\.[^/.]+$/, "")\<close>: the first dot after which, up to the end, at least
  one character follows and none is a slash or a dot.
\<close>

fun stripExtension :: "string \<Rightarrow> string" where
  "stripExtension [] = []"
| "stripExtension (c # cs) =
     (if c = CHR ''.'' \<and> cs \<noteq> [] \<and> list_all (\<lambda>x. x \<noteq> CHR ''/'' \<and> x \<noteq> CHR ''.'') cs then []
      else c # stripExtension cs)"

text \<open>
  \<open>generateQuotation\<close>; \<open>today\<close> is what \<open>new Date().toLocaleDateString()\<close> gives at the call.
\<close>

definition generateQuotation :: "Material list \<Rightarrow> string \<Rightarrow> string \<Rightarrow> QuotationResult" where
  "generateQuotation ms videoName today =
     (let subtotal = foldl (\<lambda>sum m. sum + totalPrice m) 0 ms;
          laborCost = subtotal * 0.6;
          equipmentCost = subtotal * 0.15;
          overhead = (subtotal + laborCost + equipmentCost) * 0.2
      in \<lparr>materials = ms, subtotal = subtotal, laborCost = laborCost,
          equipmentCost = equipmentCost, overhead = overhead,
          totalCost = subtotal + laborCost + equipmentCost + overhead,
          projectName = stripExtension videoName, date = today\<rparr>)"

section \<open>Session store and the process-media handler (process-media/route.ts)\<close>

record SessionData =
  assetList :: "string list"
  extList :: "string list"
  mediaContent :: string
  uploadedAt :: nat
  hasVideo :: bool

text \<open>\<open>const sessions = new Map<string, SessionData>()\<close>\<close>

type_synonym sessions = "string \<rightharpoonup> SessionData"

definition kSupportedList :: "(string \<times> string \<times> string) list" where
  "kSupportedList =
     [(''png'', ''image/png'', ''img''),
      (''jpg'', ''image/jpg'', ''img''),
      (''jpeg'', ''image/jpeg'', ''img''),
      (''mp4'', ''video/mp4'', ''video'')]"

text \<open>
  \<open>extname\<close> is imported from the \<open>path\<close> module of the runtime; the handler takes it as the
  parameter \<open>extname\<close>. \<open>getExtension\<close> puts its result in lower case and drops the first
  character (the dot).
\<close>

definition getExtension :: "(string \<Rightarrow> string) \<Rightarrow> string \<Rightarrow> string" where
  "getExtension extname filename = drop 1 (toLowerCase (extname filename))"

text \<open>
  \<open>kSupportedList[ext]?.[0] ?? ""\<close> and \<open>kSupportedList[ext]?.[1] ?? ""\<close>: an inherited member has
  no element 0 or 1.
\<close>

definition mimeType :: "string \<Rightarrow> string" where
  "mimeType ext = (case getProperty kSupportedList ext of Some (Val (m, t)) \<Rightarrow> m | _ \<Rightarrow> [])"

definition mediaType :: "string \<Rightarrow> string" where
  "mediaType ext = (case getProperty kSupportedList ext of Some (Val (m, t)) \<Rightarrow> t | _ \<Rightarrow> [])"

text \<open>The decimal text of a number, as a template literal prints \<open>Date.now()\<close>.\<close>

definition digitChar :: "nat \<Rightarrow> char" where
  "digitChar d = ''0123456789'' ! d"

function showNat :: "nat \<Rightarrow> string" where
  "showNat n = (if n < 10 then [digitChar n] else showNat (n div 10) @ [digitChar (n mod 10)])"
  by pat_completeness auto
termination
  by (relation "measure id") auto

declare showNat.simps [simp del]

text \<open>
  What a request reads from outside the program: \<open>clock k\<close> is the value of the \<open>k\<close>-th call of
  \<open>Date.now()\<close> while the request is handled, \<open>random36\<close> is
  \<open>Math.random().toString(36).substr(2, 9)\<close>.
\<close>

record env =
  clock :: "nat \<Rightarrow> nat"
  random36 :: string

text \<open>
  \<open>uploadAsset\<close>: the thrown \<open>Error\<close> is \<open>Inl\<close> of its message; the upload itself is commented
  out in the source and a dummy identifier is returned.
\<close>

definition uploadAsset :: "(string \<Rightarrow> string) \<Rightarrow> nat \<Rightarrow> string \<Rightarrow> string + string" where
  "uploadAsset extname now fileName =
     (let ext = getExtension extname fileName
      in if \<not> hasProperty kSupportedList ext then Inl (''Unsupported file extension: '' @ ext)
         else Inr (''dummy_asset_'' @ showNat now))"

text \<open>
  The loop \<open>for (const mediaFile of mediaFiles)\<close> of the upload branch over the names of the
  files left, with the four variables it updates; \<open>i\<close> counts the calls of \<open>Date.now()\<close>.
\<close>

record uploadVars =
  assets :: "string list"
  exts :: "string list"
  markup :: string
  video :: bool

fun uploadLoop ::
  "(string \<Rightarrow> string) \<Rightarrow> (nat \<Rightarrow> nat) \<Rightarrow> nat \<Rightarrow> string list \<Rightarrow> uploadVars \<Rightarrow> string + uploadVars"
where
  "uploadLoop extname clk i [] v = Inr v"
| "uploadLoop extname clk i (fileName # rest) v =
     (let ext = getExtension extname fileName
      in if \<not> hasProperty kSupportedList ext then Inl (fileName @ '' format is not supported'')
         else
           (let hv = (if mediaType ext = ''video'' then True else video v)
            in case uploadAsset extname (clk i) fileName of
                 Inl e \<Rightarrow> Inl e
               | Inr assetId \<Rightarrow>
                   uploadLoop extname clk (Suc i) rest
                     \<lparr>assets = assets v @ [assetId],
                      exts = exts v @ [ext],
                      markup = markup v @ ''<'' @ mediaType ext @ '' src='' @ [CHR 0x22] @ ''data:''
                                  @ mimeType ext @ '';asset_id,'' @ assetId @ [CHR 0x22] @ '' />'',
                      video = hv\<rparr>))"

text \<open>
  A request: the \<open>content-type\<close> header, the \<open>action\<close> parameter of the URL (\<open>None\<close> when it
  is absent) and the body. A multipart body is given by the names of the files of its field
  \<open>mediaFiles\<close>; a JSON body by its fields \<open>sessionId\<close> and \<open>query\<close> (\<open>None\<close> when absent) and
  \<open>stream\<close>. Reading a body of the other kind, or one that does not parse, throws.
\<close>

record chatBody =
  sessionId :: "string option"
  query :: "string option"
  stream :: bool

datatype payload = FormData "string list" | Json chatBody | Unreadable

record request =
  contentType :: string
  action :: "string option"
  payload :: payload

datatype body =
    ErrorBody string                \<comment> \<open>\<open>{ error }\<close>\<close>
  | UploadBody string string        \<comment> \<open>\<open>{ sessionId, message }\<close>\<close>
  | ChatBody string                 \<comment> \<open>the chat completion, by the content of its message\<close>
  | ChatStream string               \<comment> \<open>the same as an event stream\<close>
  | SuccessBody                     \<comment> \<open>\<open>{ success: true }\<close>\<close>

record response =
  status :: nat
  body :: body

text \<open>\<open>!v\<close> on a string that may be absent.\<close>

definition falsy :: "string option \<Rightarrow> bool" where
  "falsy v \<longleftrightarrow> v = None \<or> v = Some []"

text \<open>The \<open>catch\<close> of the handler: status 500 with \<open>String(error)\<close>.\<close>

definition caught :: "string \<Rightarrow> string \<Rightarrow> response" where
  "caught kind msg = \<lparr>status = 500, body = ErrorBody (kind @ '': '' @ msg)\<rparr>"

text \<open>
  \<open>chatWithMediaNvcf\<close>: it reads \<open>sessionData.assetList\<close> first, which throws a \<open>TypeError\<close>
  when \<open>sessionData\<close> is \<open>undefined\<close>; the call of the model is commented out in the source and a
  placeholder is returned.
\<close>

definition chatWithMediaNvcf :: "SessionData option \<Rightarrow> string \<Rightarrow> bool \<Rightarrow> string + string" where
  "chatWithMediaNvcf sessionData q strm =
     (case sessionData of
        None \<Rightarrow> Inl (''Cannot read properties of undefined (reading '' @ [CHR 0x27] @ ''assetList''
                     @ [CHR 0x27] @ '')'')
      | Some d \<Rightarrow> Inr ''VILA API is currently disabled. This is a placeholder response.'')"

definition upload ::
  "(string \<Rightarrow> string) \<Rightarrow> env \<Rightarrow> string list \<Rightarrow> sessions \<Rightarrow> response \<times> sessions" where
  "upload extname e mediaFiles store =
     (if mediaFiles = [] then (\<lparr>status = 400, body = ErrorBody ''No media files provided''\<rparr>, store)
      else
        (case uploadLoop extname (clock e) 0 mediaFiles
                \<lparr>assets = [], exts = [], markup = [], video = False\<rparr> of
           Inl msg \<Rightarrow> (caught ''Error'' msg, store)
         | Inr v \<Rightarrow>
             if video v \<and> length mediaFiles \<noteq> 1
             then (caught ''Error'' ''Only a single video is supported.'', store)
             else
               (let n = length mediaFiles;
                    sid = ''session_'' @ showNat (clock e n) @ ''_'' @ random36 e
                in (\<lparr>status = 200, body = UploadBody sid ''Files uploaded successfully''\<rparr>,
                    store(sid \<mapsto> \<lparr>assetList = assets v, extList = exts v,
                                   mediaContent = markup v, uploadedAt = clock e (Suc n),
                                   hasVideo = video v\<rparr>)))))"

definition chat :: "chatBody \<Rightarrow> sessions \<Rightarrow> response \<times> sessions" where
  "chat b store =
     (if falsy (sessionId b) then (\<lparr>status = 400, body = ErrorBody ''Invalid or expired session''\<rparr>, store)
      else if falsy (query b) then (\<lparr>status = 400, body = ErrorBody ''Query is required''\<rparr>, store)
      else
        (case chatWithMediaNvcf (store (the (sessionId b))) (the (query b)) (stream b) of
           Inl msg \<Rightarrow> (caught ''TypeError'' msg, store)
         | Inr result \<Rightarrow>
             if stream b then (\<lparr>status = 200, body = ChatStream result\<rparr>, store)
             else (\<lparr>status = 200, body = ChatBody result\<rparr>, store)))"

definition cleanup :: "chatBody \<Rightarrow> sessions \<Rightarrow> response \<times> sessions" where
  "cleanup b store =
     (if \<not> falsy (sessionId b) \<and> the (sessionId b) \<in> dom store
      then (\<lparr>status = 200, body = SuccessBody\<rparr>, store(the (sessionId b) := None))
      else (\<lparr>status = 404, body = ErrorBody ''Session not found''\<rparr>, store))"

text \<open>The handler \<open>POST\<close>: the response and the session map after the request.\<close>

definition POST ::
  "(string \<Rightarrow> string) \<Rightarrow> env \<Rightarrow> request \<Rightarrow> sessions \<Rightarrow> response \<times> sessions" where
  "POST extname e req store =
     (if includesStr (contentType req) ''multipart/form-data'' \<and> falsy (action req) then
        (case payload req of
           FormData mediaFiles \<Rightarrow> upload extname e mediaFiles store
         | _ \<Rightarrow> (caught ''TypeError'' ''Failed to parse body as FormData.'', store))
      else if action req = Some ''chat'' then
        (case payload req of
           Json b \<Rightarrow> chat b store
         | _ \<Rightarrow> (caught ''SyntaxError'' ''Unexpected token in JSON'', store))
      else if action req = Some ''cleanup'' then
        (case payload req of
           Json b \<Rightarrow> cleanup b store
         | _ \<Rightarrow> (caught ''SyntaxError'' ''Unexpected token in JSON'', store))
      else (\<lparr>status = 400, body = ErrorBody ''Invalid request''\<rparr>, store))"

text \<open>The session maps the handler can reach from the empty map of a fresh process.\<close>

inductive reachable :: "(string \<Rightarrow> string) \<Rightarrow> sessions \<Rightarrow> bool" for extname where
  start: "reachable extname Map.empty"
| step: "reachable extname store \<Longrightarrow> reachable extname (snd (POST extname e req store))"

text \<open>
  An instance of \<open>extname\<close> for file names without a directory part: the text from the last dot
  on, empty when there is no dot, when the last dot is the first character, or when the name
  is \<open>..\<close>.
\<close>

fun lastDot :: "string \<Rightarrow> string option" where
  "lastDot [] = None"
| "lastDot (c # cs) =
     (case lastDot cs of
        Some x \<Rightarrow> Some x
      | None \<Rightarrow> if c = CHR ''.'' then Some (c # cs) else None)"

definition extnameBase :: "string \<Rightarrow> string" where
  "extnameBase f =
     (if f = ''..'' then []
      else (case f of [] \<Rightarrow> [] | c # cs \<Rightarrow> (case lastDot cs of Some x \<Rightarrow> x | None \<Rightarrow> [])))"

section \<open>Export of a quotation (export-quotation/route.ts)\<close>

type_synonym QuotationData = QuotationResult

text \<open>
  The \<open>try\<close> block that renders the document to PDF with the headless browser: the step at
  which it throws, or the bytes of the PDF when every step succeeds.
\<close>

datatype pdfAttempt =
    ImportFails | LaunchFails | NewPageFails | SetContentFails | PdfFails | CloseFails
  | StreamFails
  | Rendered string

datatype exportPayload = ExportJson "QuotationData option" | ExportUnreadable

datatype exportBody = ExportError string | Html string | Pdf string

record exportResponse =
  statusCode :: nat
  contentTypeHeader :: string
  contentDisposition :: "string option"
  content :: exportBody

text \<open>
  The handler \<open>POST\<close> of the export route. \<open>generateProfessionalHTML\<close> fills a fixed template
  with the fields of the quotation and the time of the call; the handler only passes its
  result on, so it is the parameter \<open>html\<close> here. \<open>now\<close> is \<open>Date.now()\<close> at the response.
\<close>

definition exportPOST ::
  "(QuotationData \<Rightarrow> string) \<Rightarrow> nat \<Rightarrow> pdfAttempt \<Rightarrow> exportPayload \<Rightarrow> exportResponse" where
  "exportPOST html now attempt p =
     (case p of
        ExportUnreadable \<Rightarrow>
          \<lparr>statusCode = 500, contentTypeHeader = ''application/json'', contentDisposition = None,
           content = ExportError ''Export failed''\<rparr>
      | ExportJson None \<Rightarrow>
          \<lparr>statusCode = 400, contentTypeHeader = ''application/json'', contentDisposition = None,
           content = ExportError ''Invalid quotation data''\<rparr>
      | ExportJson (Some quotation) \<Rightarrow>
          (case attempt of
             Rendered pdfBuffer \<Rightarrow>
               \<lparr>statusCode = 200, contentTypeHeader = ''application/pdf'',
                contentDisposition =
                  Some (''attachment; filename='' @ [CHR 0x22] @ ''quotation-'' @ showNat now
                        @ ''.pdf'' @ [CHR 0x22]),
                content = Pdf pdfBuffer\<rparr>
           | _ \<Rightarrow>
               \<lparr>statusCode = 200, contentTypeHeader = ''text/html'',
                contentDisposition =
                  Some (''attachment; filename='' @ [CHR 0x22] @ ''quotation-'' @ showNat now
                        @ ''.html'' @ [CHR 0x22]),
                content = Html (html quotation)\<rparr>))"

section \<open>Notions used in the statements\<close>

text \<open>
  The quantity a pattern parses on a trimmed line: \<open>None\<close> when the pattern does not match
  the line (or the capture is not a number).
\<close>

definition parsedQuantity :: "nat \<Rightarrow> string \<Rightarrow> number option" where
  "parsedQuantity j trimmedLine =
     (case matchRx (patterns ! j) trimmedLine of
        None \<Rightarrow> None
      | Some g \<Rightarrow> fst (snd (matchFields j g)))"

text \<open>
  The inner loop as the specification words it: the first pattern that matches decides the
  line, whether or not its fields pass the test. It is compared with \<open>tryPatterns\<close> below.
\<close>

fun firstMatchWins ::
  "nat \<Rightarrow> (string \<Rightarrow> (string \<times> string \<times> string) list) list \<Rightarrow> string \<Rightarrow> Material option" where
  "firstMatchWins i [] line = None"
| "firstMatchWins i (p # ps) line =
     (case matchRx p line of
        None \<Rightarrow> firstMatchWins (Suc i) ps line
      | Some g \<Rightarrow> if accepted (matchFields i g) then Some (mkMaterial (matchFields i g)) else None)"

text \<open>
  The price as the specification words it: the entry of the first declared keyword contained
  in the lower-cased name, if its sub-table has the unit; else the default of the unit; else 5.
  It is compared with \<open>getMarketPrice\<close> below.
\<close>

definition specMarketPrice :: "string \<Rightarrow> string \<Rightarrow> real" where
  "specMarketPrice materialName u =
     (let dflt = (case map_of fallbackPrices u of Some p \<Rightarrow> p | None \<Rightarrow> 5)
      in case List.find (\<lambda>(key, sub). includesStr (toLowerCase materialName) (toLowerCase key))
                priceDatabase of
           None \<Rightarrow> dflt
         | Some (key, sub) \<Rightarrow> (case map_of sub u of Some p \<Rightarrow> p | None \<Rightarrow> dflt))"

text \<open>
  What is required of a stored session: at most one of its assets is a video, the two lists
  run in parallel, \<open>hasVideo\<close> says whether a video is among them, and a session with a video
  holds exactly one asset.
\<close>

definition singleVideo :: "SessionData \<Rightarrow> bool" where
  "singleVideo d \<longleftrightarrow>
     length (filter (\<lambda>x. mediaType x = ''video'') (extList d)) \<le> 1
     \<and> length (assetList d) = length (extList d)
     \<and> (hasVideo d \<longleftrightarrow> (\<exists>x\<in>set (extList d). mediaType x = ''video''))
     \<and> (hasVideo d \<longrightarrow> length (assetList d) = 1)"

subsection \<open>Sample inputs\<close>

definition sampleEnv :: env where
  "sampleEnv = \<lparr>clock = (\<lambda>k. 5), random36 = ''abc''\<rparr>"

definition uploadOf :: "string list \<Rightarrow> request" where
  "uploadOf names = \<lparr>contentType = ''multipart/form-data; boundary=x'', action = None,
                      payload = FormData names\<rparr>"

definition jsonOf :: "string \<Rightarrow> string \<Rightarrow> string \<Rightarrow> request" where
  "jsonOf act sid q = \<lparr>contentType = ''application/json'', action = Some act,
                       payload = Json \<lparr>sessionId = Some sid, query = Some q, stream = False\<rparr>\<rparr>"

definition afterUpload :: sessions where
  "afterUpload = snd (POST extnameBase sampleEnv (uploadOf [''wall.png'']) Map.empty)"

definition afterCleanup :: sessions where
  "afterCleanup =
     snd (POST extnameBase sampleEnv (jsonOf ''cleanup'' ''session_5_abc'' []) afterUpload)"

definition afterVideo :: sessions where
  "afterVideo = snd (POST extnameBase sampleEnv (uploadOf [''site.mp4'']) Map.empty)"

definition sampleHtml :: "QuotationData \<Rightarrow> string" where
  "sampleHtml q = ''<h2>'' @ projectName q @ ''</h2>''"

definition pricedSample :: "Material list" where
  "pricedSample =
     [\<lparr>name = ''Concrete'', quantity = Finite 5, unit = Val ''cu yd'', unitPrice = 120, totalPrice = 600\<rparr>,
      \<lparr>name = ''Ladder'', quantity = Finite 2, unit = Val ''pieces'', unitPrice = 125, totalPrice = 250\<rparr>,
      \<lparr>name = ''Saw'', quantity = Finite 1, unit = Val ''pieces'', unitPrice = 150, totalPrice = 150\<rparr>]"

section \<open>Strings and tables\<close>

lemma startsWith_iff: "startsWith s k \<longleftrightarrow> (\<exists>b. s = k @ b)"
  by (induction s k rule: startsWith.induct) auto

text \<open>\<open>includesStr\<close> is the substring test.\<close>

lemma includesStr_iff: "includesStr s k \<longleftrightarrow> (\<exists>a b. s = a @ k @ b)"
proof (induction s)
  case Nil
  then show ?case by auto
next
  case (Cons c cs)
  show ?case
  proof
    assume "includesStr (c # cs) k"
    then consider "startsWith (c # cs) k" | "includesStr cs k" by auto
    then show "\<exists>a b. c # cs = a @ k @ b"
    proof cases
      case 1
      then obtain b where "c # cs = k @ b" by (auto simp: startsWith_iff)
      then have "c # cs = [] @ k @ b" by simp
      then show ?thesis by blast
    next
      case 2
      then obtain a b where "cs = a @ k @ b" using Cons.IH by blast
      then have "c # cs = (c # a) @ k @ b" by simp
      then show ?thesis by blast
    qed
  next
    assume "\<exists>a b. c # cs = a @ k @ b"
    then obtain a b where ab: "c # cs = a @ k @ b" by blast
    show "includesStr (c # cs) k"
    proof (cases a)
      case Nil
      with ab have "startsWith (c # cs) k" by (auto simp: startsWith_iff)
      then show ?thesis by simp
    next
      case (Cons x xs)
      with ab have "cs = xs @ k @ b" by simp
      then have "includesStr cs k" using Cons.IH by blast
      then show ?thesis by simp
    qed
  qed
qed

lemma startsWith_drop: "startsWith s k \<Longrightarrow> s = k @ drop (length k) s"
  by (induction s k rule: startsWith.induct) auto

lemma set_trim: "set (trim s) \<subseteq> set s"
proof -
  have "set (trim s) \<subseteq> set (dropWhile isSpace s)"
    unfolding trim_def using set_dropWhileD by fastforce
  also have "\<dots> \<subseteq> set s" using set_dropWhileD by fastforce
  finally show ?thesis .
qed

lemma find_keys:
  "List.find P (map fst xs) = map_option fst (List.find (\<lambda>(k, s). P k) xs)"
  by (induction xs) auto

lemma find_sat: "List.find P xs = Some x \<Longrightarrow> P x"
  by (induction xs) (auto split: if_splits)

lemma find_map_of:
  "List.find (\<lambda>(k, s). P k) xs = Some (k, sub) \<Longrightarrow> map_of xs k = Some sub"
  by (induction xs) (auto split: if_splits dest: find_sat)

lemma find_mem: "List.find P xs = Some x \<Longrightarrow> x \<in> set xs"
  by (induction xs) (auto split: if_splits)

section \<open>Material extraction\<close>

subsection \<open>Parsed numbers\<close>

text \<open>The two bounds of \<open>toNumber\<close> written out, for evaluation.\<close>

lemma toNumber_code [code]:
  "toNumber v =
     (if v * 404804506614621236704990693437834614099113299528284236713802716054860679135990693783920767402874248990374155728633623822779617474771586953734026799881477019843034848553132722728933815484186432682479535356945490137124014966849385397236206711298319112681620113024717539104666829230461005064372655017292012526615415482186989568 \<le> 1 then Finite 0
      else if 179769313486231580793728971405303415079934132710037826936173778980444968292764750946649017977587207096330286416692887910946555547851940402630657488671505820681908902000708383676273854845817711531764475730270069855571366959622842914819860834936475292719074168444365510704342711559699508093042880177904174497792 \<le> v then Infinity
      else Finite v)"
  by (simp add: toNumber_def)

lemma toNumber_range_ends:
  "toNumber 0 = Finite 0 \<and> toNumber (1 / 10 ^ 324) = Finite 0
   \<and> toNumber (10 ^ 309) = Infinity \<and> toNumber 12 = Finite 12"
  by (simp add: toNumber_def)

lemma toNumber_nonneg: "0 \<le> v \<Longrightarrow> toNumber v = Finite x \<Longrightarrow> 0 \<le> x"
  by (auto simp: toNumber_def split: if_splits)

lemma parseFloat_nonneg: "parseFloat s = Some (Finite x) \<Longrightarrow> 0 \<le> x"
proof -
  assume a: "parseFloat s = Some (Finite x)"
  define ip where "ip = takeWhile isDigit s"
  define fp where "fp = (case dropWhile isDigit s of
                           c # r \<Rightarrow> if c = CHR ''.'' then takeWhile isDigit r else []
                         | [] \<Rightarrow> [])"
  let ?v = "real (decimalNat ip) + real (decimalNat fp) / 10 ^ length fp"
  from a have "toNumber ?v = Finite x"
    by (simp add: parseFloat_def Let_def ip_def fp_def split: if_splits)
  moreover have "0 \<le> ?v" by simp
  ultimately show ?thesis using toNumber_nonneg by blast
qed

subsection \<open>What the pieces of a pattern return\<close>

lemma manyGreedy_split: "(m, r) \<in> set (manyGreedy P s) \<Longrightarrow> s = m @ r"
  by (induction s arbitrary: m) (auto split: if_splits)

lemma manyLazy_split: "(m, r) \<in> set (manyLazy P s) \<Longrightarrow> s = m @ r"
  by (induction s arbitrary: m) (auto split: if_splits)

lemma many1Greedy_split: "(m, r) \<in> set (many1Greedy P s) \<Longrightarrow> s = m @ r \<and> m \<noteq> [] \<and> P (hd m)"
  by (cases s) (auto split: if_splits dest: manyGreedy_split)

lemma many1Lazy_split: "(m, r) \<in> set (many1Lazy P s) \<Longrightarrow> s = m @ r \<and> m \<noteq> [] \<and> P (hd m)"
  by (cases s) (auto split: if_splits dest: manyLazy_split)

lemma oneOf_split: "(m, r) \<in> set (oneOf P s) \<Longrightarrow> s = m @ r"
  by (cases s) (auto split: if_splits)

lemma lit_split: "(m, r) \<in> set (lit k s) \<Longrightarrow> s = m @ r"
  by (auto simp: lit_def split: if_splits dest: startsWith_drop)

lemma numberRx_digit: "x \<in> set (numberRx s) \<Longrightarrow> \<exists>c\<in>set s. isDigit c"
proof -
  assume "x \<in> set (numberRx s)"
  then obtain ds r1 where "(ds, r1) \<in> set (many1Greedy isDigit s)"
    by (auto simp: numberRx_def List.bind_def)
  from many1Greedy_split[OF this] have "s = ds @ r1" "ds \<noteq> []" "isDigit (hd ds)" by auto
  then have "hd ds \<in> set s" by simp
  with \<open>isDigit (hd ds)\<close> show ?thesis by blast
qed

lemma pattern0_digit: "g \<in> set (pattern0 s) \<Longrightarrow> \<exists>c\<in>set s. isDigit c"
proof -
  assume "g \<in> set (pattern0 s)"
  then obtain g1 r1 x r2 y r3 n where
    "(g1, r1) \<in> set (many1Lazy isDot s)" "(x, r2) \<in> set (lit '':'' r1)"
    "(y, r3) \<in> set (manyGreedy isSpace r2)" "n \<in> set (numberRx r3)"
    by (auto simp: pattern0_def List.bind_def)
  then have "s = g1 @ x @ y @ r3" and "\<exists>c\<in>set r3. isDigit c"
    by (auto dest!: many1Lazy_split lit_split manyGreedy_split numberRx_digit)
  then show ?thesis by auto
qed

lemma pattern1_digit: "g \<in> set (pattern1 s) \<Longrightarrow> \<exists>c\<in>set s. isDigit c"
proof -
  assume "g \<in> set (pattern1 s)"
  then obtain n where "n \<in> set (numberRx s)"
    by (auto simp: pattern1_def List.bind_def)
  then show ?thesis by (rule numberRx_digit)
qed

lemma pattern2_digit: "g \<in> set (pattern2 s) \<Longrightarrow> \<exists>c\<in>set s. isDigit c"
proof -
  assume "g \<in> set (pattern2 s)"
  then obtain g1 r1 x r2 y r3 z r4 n where
    "(g1, r1) \<in> set (many1Lazy isDot s)" "(x, r2) \<in> set (manyGreedy isSpace r1)"
    "(y, r3) \<in> set (oneOf isDash r2)" "(z, r4) \<in> set (manyGreedy isSpace r3)"
    "n \<in> set (numberRx r4)"
    by (auto simp: pattern2_def List.bind_def)
  then have "s = g1 @ x @ y @ z @ r4" and "\<exists>c\<in>set r4. isDigit c"
    by (auto dest!: many1Lazy_split oneOf_split manyGreedy_split numberRx_digit)
  then show ?thesis by auto
qed

lemma matchRx_Some: "matchRx p s = Some g \<Longrightarrow> \<exists>a t. s = a @ t \<and> g \<in> set (p t)"
proof (induction s)
  case Nil
  then show ?case by (auto split: list.splits)
next
  case (Cons c cs)
  show ?case
  proof (cases "p (c # cs)")
    case Nil
    with Cons.prems have "matchRx p cs = Some g" by simp
    from Cons.IH[OF this] obtain a t where "cs = a @ t" "g \<in> set (p t)" by blast
    then have "c # cs = (c # a) @ t \<and> g \<in> set (p t)" by simp
    then show ?thesis by blast
  next
    case (Cons m ms)
    with Cons.prems have "g = m" by simp
    with Cons have "c # cs = [] @ (c # cs) \<and> g \<in> set (p (c # cs))" by simp
    then show ?thesis by blast
  qed
qed

lemma patterns_need_digit:
  assumes "j < length patterns" and "matchRx (patterns ! j) s = Some g"
  shows "\<exists>c\<in>set s. isDigit c"
proof -
  from matchRx_Some[OF assms(2)] obtain a t where s: "s = a @ t" and g: "g \<in> set ((patterns ! j) t)"
    by blast
  from assms(1) have "j = 0 \<or> j = 1 \<or> j = 2" by (auto simp: patterns_def)
  with g have "\<exists>c\<in>set t. isDigit c"
    by (auto simp: patterns_def dest: pattern0_digit pattern1_digit pattern2_digit)
  with s show ?thesis by auto
qed

text \<open>
  The unit a pattern captures is one word: it is never empty and holds word characters only,
  so no blank.
\<close>

lemma manyGreedy_all: "(m, r) \<in> set (manyGreedy P s) \<Longrightarrow> list_all P m"
  by (induction s arbitrary: m) (auto split: if_splits)

lemma many1Greedy_all: "(m, r) \<in> set (many1Greedy P s) \<Longrightarrow> list_all P m \<and> m \<noteq> []"
  by (cases s) (auto split: if_splits dest: manyGreedy_all)

lemma pattern0_unit: "(g1, g2, g3) \<in> set (pattern0 s) \<Longrightarrow> list_all isWord g3 \<and> g3 \<noteq> []"
  by (auto simp: pattern0_def List.bind_def dest: many1Greedy_all)

lemma pattern1_unit: "(g1, g2, g3) \<in> set (pattern1 s) \<Longrightarrow> list_all isWord g2 \<and> g2 \<noteq> []"
  by (auto simp: pattern1_def List.bind_def dest: many1Greedy_all)

lemma pattern2_unit: "(g1, g2, g3) \<in> set (pattern2 s) \<Longrightarrow> list_all isWord g3 \<and> g3 \<noteq> []"
  by (auto simp: pattern2_def List.bind_def dest: many1Greedy_all)

lemma unit_capture_one_word:
  assumes "j < length patterns" and "matchRx (patterns ! j) s = Some g"
  shows "list_all isWord (snd (snd (matchFields j g))) \<and> snd (snd (matchFields j g)) \<noteq> []"
proof -
  obtain g1 g2 g3 where g: "g = (g1, g2, g3)" by (cases g)
  from matchRx_Some[OF assms(2)] obtain t where m: "(g1, g2, g3) \<in> set ((patterns ! j) t)"
    using g by blast
  from assms(1) have "j = 0 \<or> j = 1 \<or> j = 2" by (auto simp: patterns_def)
  then show ?thesis
  proof (elim disjE)
    assume "j = 0"
    with m pattern0_unit[of g1 g2 g3 t] g show ?thesis by (simp add: patterns_def matchFields_def)
  next
    assume "j = 1"
    with m pattern1_unit[of g1 g2 g3 t] g show ?thesis by (simp add: patterns_def matchFields_def)
  next
    assume "j = 2"
    with m pattern2_unit[of g1 g2 g3 t] g show ?thesis by (simp add: patterns_def matchFields_def)
  qed
qed

lemma blank_not_word: "\<not> isWord (CHR '' '')"
  by code_simp

subsection \<open>The loop over the patterns\<close>

lemma tryPatterns_Some:
  "tryPatterns i ps line = Some m \<Longrightarrow>
     \<exists>j<length ps. \<exists>g. matchRx (ps ! j) line = Some g \<and> accepted (matchFields (i + j) g)
        \<and> m = mkMaterial (matchFields (i + j) g)"
proof (induction ps arbitrary: i)
  case Nil
  then show ?case by simp
next
  case (Cons p ps)
  show ?case
  proof (cases "\<exists>g. matchRx p line = Some g \<and> accepted (matchFields i g)")
    case True
    then obtain g where g: "matchRx p line = Some g" "accepted (matchFields i g)" by blast
    with Cons.prems have "m = mkMaterial (matchFields i g)" by simp
    with g have "matchRx ((p # ps) ! 0) line = Some g \<and> accepted (matchFields (i + 0) g)
        \<and> m = mkMaterial (matchFields (i + 0) g)" by simp
    then show ?thesis by blast
  next
    case False
    with Cons.prems have "tryPatterns (Suc i) ps line = Some m"
      by (auto split: option.splits if_splits)
    from Cons.IH[OF this] obtain j g where
      "j < length ps" "matchRx (ps ! j) line = Some g" "accepted (matchFields (Suc i + j) g)"
      "m = mkMaterial (matchFields (Suc i + j) g)" by blast
    then have "Suc j < length (p # ps) \<and> matchRx ((p # ps) ! Suc j) line = Some g
       \<and> accepted (matchFields (i + Suc j) g) \<and> m = mkMaterial (matchFields (i + Suc j) g)" by simp
    then show ?thesis by blast
  qed
qed

lemma tryPatterns_None:
  assumes "\<forall>j<length ps. case matchRx (ps ! j) line of None \<Rightarrow> True
                                | Some g \<Rightarrow> \<not> accepted (matchFields (i + j) g)"
  shows "tryPatterns i ps line = None"
proof (rule ccontr)
  assume "tryPatterns i ps line \<noteq> None"
  then obtain m where "tryPatterns i ps line = Some m" by blast
  from tryPatterns_Some[OF this] obtain j g where
    "j < length ps" "matchRx (ps ! j) line = Some g" "accepted (matchFields (i + j) g)" by blast
  with assms show False by fastforce
qed

lemma tryPatterns_first_accepted:
  assumes "\<forall>j<length ps. case matchRx (ps ! j) line of None \<Rightarrow> True
                                | Some g' \<Rightarrow> \<not> accepted (matchFields (i + j) g')"
    and "matchRx p line = Some g" and "accepted (matchFields (i + length ps) g)"
  shows "tryPatterns i (ps @ p # qs) line = Some (mkMaterial (matchFields (i + length ps) g))"
  using assms
proof (induction ps arbitrary: i)
  case Nil
  then show ?case by simp
next
  case (Cons a ps)
  from Cons.prems(1) have hd: "case matchRx a line of None \<Rightarrow> True | Some g' \<Rightarrow> \<not> accepted (matchFields i g')"
    by (metis add.right_neutral length_greater_0_conv list.discI nth_Cons_0)
  have tl: "\<forall>j<length ps. case matchRx (ps ! j) line of None \<Rightarrow> True
                                | Some g' \<Rightarrow> \<not> accepted (matchFields (Suc i + j) g')"
  proof (intro allI impI)
    fix j assume "j < length ps"
    then have "Suc j < length (a # ps)" by simp
    from Cons.prems(1)[rule_format, OF this] show
      "case matchRx (ps ! j) line of None \<Rightarrow> True | Some g' \<Rightarrow> \<not> accepted (matchFields (Suc i + j) g')"
      by (auto split: option.splits)
  qed
  have "tryPatterns (Suc i) (ps @ p # qs) line = Some (mkMaterial (matchFields (Suc i + length ps) g))"
    using Cons.IH[OF tl Cons.prems(2)] Cons.prems(3) by simp
  with hd show ?case by (auto split: option.splits)
qed

lemma accepted_quantity: "accepted f \<Longrightarrow> isPositive (quantity (mkMaterial f))"
  by (cases f) (auto simp: accepted_def mkMaterial_def split: option.splits)

lemma extractLine_quantity: "extractLine line = Some m \<Longrightarrow> isPositive (quantity m)"
  by (auto simp: extractLine_def Let_def split: if_splits dest!: tryPatterns_Some intro: accepted_quantity)

lemma no_digit_no_material:
  assumes "\<forall>c\<in>set line. \<not> isDigit c"
  shows "extractLine line = None"
proof -
  have nd: "\<forall>c\<in>set (trim line). \<not> isDigit c" using assms set_trim by blast
  have "tryPatterns 0 patterns (trim line) = None"
  proof (rule tryPatterns_None, intro allI impI)
    fix j assume "j < length patterns"
    with nd patterns_need_digit have "matchRx (patterns ! j) (trim line) = None"
      by (metis not_Some_eq)
    then show "case matchRx (patterns ! j) (trim line) of None \<Rightarrow> True
               | Some g \<Rightarrow> \<not> accepted (matchFields (0 + j) g)" by simp
  qed
  then show ?thesis by (simp add: extractLine_def Let_def)
qed

subsection \<open>The loop over the lines\<close>

lemma extractLoop_eq: "extractLoop lines acc = acc @ List.map_filter extractLine lines"
  by (induction lines arbitrary: acc) (auto simp: map_filter_simps split: option.splits)

lemma map_filter_set: "m \<in> set (List.map_filter f xs) \<Longrightarrow> \<exists>x\<in>set xs. f x = Some m"
  by (auto simp: List.map_filter_def)

lemma extract_quantity: "m \<in> set (extractMaterialsFromText t) \<Longrightarrow> isPositive (quantity m)"
  by (auto simp: extractMaterialsFromText_def extractLoop_eq dest!: in_set_takeD map_filter_set
      intro: extractLine_quantity)

subsection \<open>Two-word units\<close>

text \<open>
  C1. The claim is that a line \<open>name: quantity unit\<close> with a two-word unit, such as
  \<open>Concrete: 12 cu yd\<close>, yields the material with that unit (\<open>cu yd\<close>). On this line the
  first pattern captures the unit with \<open>(\w+)\<close>, a single word: the material pushed has the
  unit \<open>cu\<close>. The keys \<open>square feet\<close>, \<open>cubic feet\<close>, \<open>cubic yards\<close> of \<open>unitMap\<close> and the
  units \<open>cu yd\<close>, \<open>cu ft\<close>, \<open>sq ft\<close> of the price tables show that two-word units are meant
  to arrive.
\<close>

theorem extract_two_word_unit_keeps_first_word:
  "extractMaterialsFromText ''Concrete: 12 cu yd'' =
     [\<lparr>name = ''Concrete'', quantity = Finite 12, unit = Val ''cu'', unitPrice = 0, totalPrice = 0\<rparr>]"
  by code_simp

subsection \<open>Which pattern decides a line\<close>

text \<open>
  C4, as stated: the first pattern that matches a line decides its result. On the line
  \<open>5 bags of mix: 0 kg\<close> the first pattern matches with the quantity 0, its fields fail the
  test, the loop goes on and the second pattern gives the material: the loop of the source
  differs from the first-match-wins reading, which gives no material here.
\<close>

theorem first_match_does_not_decide:
  "matchRx pattern0 ''5 bags of mix: 0 kg'' = Some (''5 bags of mix'', ''0'', ''kg'')
   \<and> firstMatchWins 0 patterns ''5 bags of mix: 0 kg'' = None
   \<and> tryPatterns 0 patterns ''5 bags of mix: 0 kg'' =
       Some \<lparr>name = ''Mix: 0 Kg'', quantity = Finite 5, unit = Val ''bags'', unitPrice = 0, totalPrice = 0\<rparr>
   \<and> extractMaterialsFromText ''5 bags of mix: 0 kg'' =
       [\<lparr>name = ''Mix: 0 Kg'', quantity = Finite 5, unit = Val ''bags'', unitPrice = 0, totalPrice = 0\<rparr>]"
  by code_simp

text \<open>
  C4, amended: the patterns are tried in their order and the first pattern that matches the
  line with fields passing the test (a name, a quantity above 0, a unit) decides the line's
  result: patterns before it that do not match, or match with fields failing the test, are
  passed over, and whatever patterns \<open>qs\<close> come after it have no part in the result.
\<close>

theorem first_accepted_pattern_decides:
  assumes "\<forall>j<length ps. case matchRx (ps ! j) line of None \<Rightarrow> True
                                | Some g' \<Rightarrow> \<not> accepted (matchFields (i + j) g')"
    and "matchRx p line = Some g" and "accepted (matchFields (i + length ps) g)"
  shows "tryPatterns i (ps @ p # qs) line = Some (mkMaterial (matchFields (i + length ps) g))"
  using assms by (rule tryPatterns_first_accepted)

theorem first_accepted_pattern_decides_witness:
  "matchRx pattern0 ''5 bags of mix: 0 kg'' = Some (''5 bags of mix'', ''0'', ''kg'')
   \<and> \<not> accepted (matchFields 0 (''5 bags of mix'', ''0'', ''kg''))
   \<and> matchRx pattern1 ''5 bags of mix: 0 kg'' = Some (''5'', ''bags'', ''mix: 0 kg'')
   \<and> accepted (matchFields 1 (''5'', ''bags'', ''mix: 0 kg''))
   \<and> tryPatterns 0 [pattern0, pattern1, pattern2] ''5 bags of mix: 0 kg'' =
       Some (mkMaterial (matchFields 1 (''5'', ''bags'', ''mix: 0 kg'')))"
proof -
  let ?l = "''5 bags of mix: 0 kg''"
  have m0: "matchRx pattern0 ?l = Some (''5 bags of mix'', ''0'', ''kg'')" by code_simp
  have r0: "\<not> accepted (matchFields 0 (''5 bags of mix'', ''0'', ''kg''))" by code_simp
  have m1: "matchRx pattern1 ?l = Some (''5'', ''bags'', ''mix: 0 kg'')" by code_simp
  have a1: "accepted (matchFields 1 (''5'', ''bags'', ''mix: 0 kg''))" by code_simp
  have h1: "\<forall>j<length [pattern0]. case matchRx ([pattern0] ! j) ?l of None \<Rightarrow> True
                                | Some g' \<Rightarrow> \<not> accepted (matchFields (0 + j) g')"
    using m0 r0 by simp
  have h3: "accepted (matchFields (0 + length [pattern0]) (''5'', ''bags'', ''mix: 0 kg''))"
    using a1 by simp
  from first_accepted_pattern_decides[OF h1 m1 h3, of "[pattern2]"]
  have "tryPatterns 0 [pattern0, pattern1, pattern2] ?l =
       Some (mkMaterial (matchFields 1 (''5'', ''bags'', ''mix: 0 kg'')))" by simp
  with m0 r0 m1 a1 show ?thesis by simp
qed

subsection \<open>Lines without a positive quantity\<close>

text \<open>
  A pattern that matches captures a name and a unit that are not empty, so its fields pass
  the test exactly when the quantity it parses is above 0; and a line gives a material
  exactly when its trimmed text has at least 5 characters and some pattern parses a quantity
  above 0 on it.
\<close>

lemma parsedQuantity_nonneg: "parsedQuantity j l = Some (Finite x) \<Longrightarrow> 0 \<le> x"
  by (auto simp: parsedQuantity_def matchFields_def split: option.splits prod.splits if_splits
      dest: parseFloat_nonneg)

lemma pattern0_name: "(g1, g2, g3) \<in> set (pattern0 s) \<Longrightarrow> g1 \<noteq> []"
  by (auto simp: pattern0_def List.bind_def dest: many1Lazy_split)

lemma pattern1_name: "(g1, g2, g3) \<in> set (pattern1 s) \<Longrightarrow> g3 \<noteq> []"
  by (auto simp: pattern1_def List.bind_def dest: many1Greedy_all)

lemma pattern2_name: "(g1, g2, g3) \<in> set (pattern2 s) \<Longrightarrow> g1 \<noteq> []"
  by (auto simp: pattern2_def List.bind_def dest: many1Lazy_split)

lemma name_capture_nonempty:
  assumes "j < length patterns" and "matchRx (patterns ! j) s = Some g"
  shows "fst (matchFields j g) \<noteq> []"
proof -
  obtain g1 g2 g3 where g: "g = (g1, g2, g3)" by (cases g)
  from matchRx_Some[OF assms(2)] obtain t where m: "(g1, g2, g3) \<in> set ((patterns ! j) t)"
    using g by blast
  from assms(1) have "j = 0 \<or> j = 1 \<or> j = 2" by (auto simp: patterns_def)
  then show ?thesis
  proof (elim disjE)
    assume "j = 0"
    with m pattern0_name[of g1 g2 g3 t] g show ?thesis by (simp add: patterns_def matchFields_def)
  next
    assume "j = 1"
    with m pattern1_name[of g1 g2 g3 t] g show ?thesis by (simp add: patterns_def matchFields_def)
  next
    assume "j = 2"
    with m pattern2_name[of g1 g2 g3 t] g show ?thesis by (simp add: patterns_def matchFields_def)
  qed
qed

lemma accepted_iff_positive:
  assumes "j < length patterns" and "matchRx (patterns ! j) s = Some g"
  shows "accepted (matchFields j g) \<longleftrightarrow> (\<exists>q. parsedQuantity j s = Some q \<and> isPositive q)"
proof -
  obtain nm q u where f: "matchFields j g = (nm, q, u)" by (cases "matchFields j g")
  from name_capture_nonempty[OF assms] f have "nm \<noteq> []" by simp
  moreover from unit_capture_one_word[OF assms] f have "u \<noteq> []" by simp
  moreover from assms(2) f have "parsedQuantity j s = q" by (simp add: parsedQuantity_def)
  ultimately show ?thesis using f by (auto simp: accepted_def split: option.splits)
qed

lemma tryPatterns_accepts:
  "j < length ps \<Longrightarrow> matchRx (ps ! j) line = Some g \<Longrightarrow> accepted (matchFields (i + j) g)
     \<Longrightarrow> tryPatterns i ps line \<noteq> None"
proof (induction ps arbitrary: i j)
  case Nil
  then show ?case by simp
next
  case (Cons p ps)
  show ?case
  proof (cases j)
    case 0
    with Cons.prems show ?thesis by simp
  next
    case (Suc k)
    with Cons.prems have "k < length ps" "matchRx (ps ! k) line = Some g"
      "accepted (matchFields (Suc i + k) g)" by simp_all
    from Cons.IH[OF this] show ?thesis by (auto split: option.splits)
  qed
qed

lemma extractLine_iff:
  "extractLine line \<noteq> None \<longleftrightarrow>
     5 \<le> length (trim line)
     \<and> (\<exists>j<length patterns. \<exists>q. parsedQuantity j (trim line) = Some q \<and> isPositive q)"
proof
  assume "extractLine line \<noteq> None"
  then obtain m where len: "5 \<le> length (trim line)"
    and t: "tryPatterns 0 patterns (trim line) = Some m"
    by (auto simp: extractLine_def Let_def split: if_splits)
  from tryPatterns_Some[OF t] obtain j g where j: "j < length patterns"
    "matchRx (patterns ! j) (trim line) = Some g" "accepted (matchFields j g)" by auto
  with accepted_iff_positive[OF j(1) j(2)] len
  show "5 \<le> length (trim line)
     \<and> (\<exists>j<length patterns. \<exists>q. parsedQuantity j (trim line) = Some q \<and> isPositive q)"
    by blast
next
  assume a: "5 \<le> length (trim line)
     \<and> (\<exists>j<length patterns. \<exists>q. parsedQuantity j (trim line) = Some q \<and> isPositive q)"
  then obtain j q where j: "j < length patterns" "parsedQuantity j (trim line) = Some q" "isPositive q"
    by blast
  then obtain g where g: "matchRx (patterns ! j) (trim line) = Some g"
    by (auto simp: parsedQuantity_def split: option.splits)
  from accepted_iff_positive[OF j(1) g] j have "accepted (matchFields (0 + j) g)" by auto
  from tryPatterns_accepts[OF j(1) g this] a show "extractLine line \<noteq> None"
    by (auto simp: extractLine_def Let_def)
qed

text \<open>
  C7, as stated: a line whose quantity is not positive or is missing gives no material. The
  patterns read unsigned numbers and any of the three may supply the quantity. On
  \<open>Bolts: -4 pcs\<close> the third pattern takes the minus sign for its dash and gives the quantity
  4; on \<open>2x4 lumber: several pcs\<close>, which states no quantity, the second pattern reads the
  quantity 2 off the name; on \<open>3 boxes of nails: 0 lbs\<close> the first pattern parses the quantity
  0 and the second pattern still gives a material.
\<close>

theorem signed_or_missing_quantity_still_emits:
  "extractMaterialsFromText ''Bolts: -4 pcs'' =
     [\<lparr>name = ''Bolts'', quantity = Finite 4, unit = Val ''pieces'', unitPrice = 0, totalPrice = 0\<rparr>]
   \<and> extractMaterialsFromText ''2x4 lumber: several pcs'' =
     [\<lparr>name = ''Lumber: Several Pcs'', quantity = Finite 2, unit = Val ''x4'', unitPrice = 0,
       totalPrice = 0\<rparr>]
   \<and> parsedQuantity 0 ''3 boxes of nails: 0 lbs'' = Some (Finite 0)
   \<and> extractMaterialsFromText ''3 boxes of nails: 0 lbs'' =
     [\<lparr>name = ''Nails: 0 Lbs'', quantity = Finite 3, unit = Val ''boxes'', unitPrice = 0,
       totalPrice = 0\<rparr>]"
  by code_simp

text \<open>
  C7, amended: a line gives no material when no pattern parses a quantity above 0 on it, that
  is when each pattern either does not match the line or parses the quantity 0 (a parsed
  quantity is never negative); in particular a line without any digit gives none. A line
  gives a material exactly when its trimmed text has at least 5 characters and some pattern
  parses a quantity above 0, and every material of the result has a quantity above 0. The
  extraction has no throwing step: \<open>extractLine\<close> and \<open>extractMaterialsFromText\<close> are total, a
  line that gives nothing is passed over.
\<close>

theorem material_iff_positive_quantity_parsed:
  "(extractLine line \<noteq> None \<longleftrightarrow>
      5 \<le> length (trim line)
      \<and> (\<exists>j<length patterns. \<exists>q. parsedQuantity j (trim line) = Some q \<and> isPositive q))
   \<and> ((\<forall>j<length patterns. case parsedQuantity j (trim line) of
                              None \<Rightarrow> True | Some q \<Rightarrow> \<not> isPositive q)
        \<longrightarrow> extractLine line = None)
   \<and> (extractLine line = Some m \<longrightarrow> isPositive (quantity m))
   \<and> ((\<forall>c\<in>set line. \<not> isDigit c) \<longrightarrow> extractLine line = None)
   \<and> (m \<in> set (extractMaterialsFromText text) \<longrightarrow> isPositive (quantity m))
   \<and> (parsedQuantity j l = Some (Finite x) \<longrightarrow> 0 \<le> x)"
proof (intro conjI impI)
  show "extractLine line \<noteq> None \<longleftrightarrow>
      5 \<le> length (trim line)
      \<and> (\<exists>j<length patterns. \<exists>q. parsedQuantity j (trim line) = Some q \<and> isPositive q)"
    by (rule extractLine_iff)
next
  assume a: "\<forall>j<length patterns. case parsedQuantity j (trim line) of
                              None \<Rightarrow> True | Some q \<Rightarrow> \<not> isPositive q"
  have "\<not> (\<exists>j<length patterns. \<exists>q. parsedQuantity j (trim line) = Some q \<and> isPositive q)"
  proof
    assume "\<exists>j<length patterns. \<exists>q. parsedQuantity j (trim line) = Some q \<and> isPositive q"
    then obtain j q where "j < length patterns" "parsedQuantity j (trim line) = Some q" "isPositive q"
      by blast
    with a show False by fastforce
  qed
  with extractLine_iff[of line] show "extractLine line = None" by blast
next
  assume "extractLine line = Some m"
  then show "isPositive (quantity m)" by (rule extractLine_quantity)
next
  assume "\<forall>c\<in>set line. \<not> isDigit c"
  then show "extractLine line = None" by (rule no_digit_no_material)
next
  assume "m \<in> set (extractMaterialsFromText text)"
  then show "isPositive (quantity m)" by (rule extract_quantity)
next
  assume "parsedQuantity j l = Some (Finite x)"
  then show "0 \<le> x" by (rule parsedQuantity_nonneg)
qed

theorem material_iff_positive_quantity_parsed_witness:
  "extractLine ''Bolts: 4 pcs'' =
     Some \<lparr>name = ''Bolts'', quantity = Finite 4, unit = Val ''pieces'', unitPrice = 0, totalPrice = 0\<rparr>
   \<and> parsedQuantity 0 (trim ''Bolts: 4 pcs'') = Some (Finite 4)
   \<and> parsedQuantity 0 (trim ''Bolts: 0 pcs'') = Some (Finite 0)
   \<and> parsedQuantity 1 (trim ''Bolts: 0 pcs'') = None
   \<and> parsedQuantity 2 (trim ''Bolts: 0 pcs'') = None
   \<and> extractLine ''Bolts: 0 pcs'' = None
   \<and> extractLine ''a ladder and some rope'' = None
   \<and> extractMaterialsFromText ''Bolts: 0 pcs'' = []"
proof -
  let ?m = "\<lparr>name = ''Bolts'', quantity = Finite 4, unit = Val ''pieces'', unitPrice = 0, totalPrice = 0\<rparr>"
  have e: "extractLine ''Bolts: 4 pcs'' = Some ?m" by code_simp
  have p: "parsedQuantity 0 (trim ''Bolts: 4 pcs'') = Some (Finite 4)" by code_simp
  have q0: "parsedQuantity 0 (trim ''Bolts: 0 pcs'') = Some (Finite 0)" by code_simp
  have q1: "parsedQuantity (Suc 0) (trim ''Bolts: 0 pcs'') = None" by code_simp
  have q2: "parsedQuantity (Suc (Suc 0)) (trim ''Bolts: 0 pcs'') = None" by code_simp
  have h2: "\<forall>j<length patterns. case parsedQuantity j (trim ''Bolts: 0 pcs'') of
                                   None \<Rightarrow> True | Some q \<Rightarrow> \<not> isPositive q"
    using q0 q1 q2 by (auto simp: patterns_def less_Suc_eq)
  have h3: "\<forall>c\<in>set ''a ladder and some rope''. \<not> isDigit c" by code_simp
  have t: "extractMaterialsFromText ''Bolts: 0 pcs'' = []" by code_simp
  note w = material_iff_positive_quantity_parsed
  from w[of "''Bolts: 4 pcs''" ?m] e have "isPositive (quantity ?m)" by blast
  moreover from w[of "''Bolts: 0 pcs''"] h2 have "extractLine ''Bolts: 0 pcs'' = None" by blast
  moreover from w[of "''a ladder and some rope''"] h3
  have "extractLine ''a ladder and some rope'' = None" by blast
  moreover from w[of _ _ _ 0 "trim ''Bolts: 4 pcs''" 4] p have "(0::real) \<le> 4" by blast
  ultimately show ?thesis using e p q0 q1 q2 t by (simp add: numeral_2_eq_2)
qed

subsection \<open>The cap of 50 materials\<close>

text \<open>
  C8. For every text the result has at most 50 materials, and it is the first 50 (all of
  them, when there are fewer) of the materials of the lines, in the order of the lines.
\<close>

theorem extraction_keeps_first_50:
  "length (extractMaterialsFromText t) \<le> 50
   \<and> extractMaterialsFromText t = take 50 (List.map_filter extractLine (splitLines t))
   \<and> length (extractMaterialsFromText t)
       = min 50 (length (List.map_filter extractLine (splitLines t)))"
  by (simp add: extractMaterialsFromText_def extractLoop_eq)

section \<open>Pricing\<close>

lemma prices_nonzero:
  "list_all (\<lambda>(k, sub). k \<noteq> [] \<and> list_all (\<lambda>(u, p). p \<noteq> 0) sub) priceDatabase"
  by code_simp

lemma fallback_nonzero: "list_all (\<lambda>(u, p). p \<noteq> 0) fallbackPrices"
  by code_simp

lemma map_of_nonzero:
  "list_all (\<lambda>(u, p). p \<noteq> (0::real)) tbl \<Longrightarrow> map_of tbl u = Some p \<Longrightarrow> p \<noteq> 0"
  by (induction tbl) (auto split: if_splits)

lemma truthy_getProperty:
  assumes "list_all (\<lambda>(u, p). p \<noteq> (0::real)) tbl" and "u \<notin> set objectPrototypeKeys"
  shows "truthy (getProperty tbl u) \<longleftrightarrow> map_of tbl u \<noteq> None"
    and "map_of tbl u = Some p \<Longrightarrow> getProperty tbl u = Some (Val p)"
  using assms map_of_nonzero[OF assms(1)]
  by (auto simp: getProperty_def split: option.splits)

text \<open>
  For a unit that is not the name of a member inherited from \<open>Object.prototype\<close>, the price
  is the one the specification words, and the three examples of the specification hold.
\<close>

lemma getMarketPrice_declared_unit:
  assumes "u \<notin> set objectPrototypeKeys"
  shows "getMarketPrice materialName u = Val (specMarketPrice materialName u)"
proof -
  let ?P = "\<lambda>key. includesStr (toLowerCase materialName) (toLowerCase key)"
  have fb: "(let fb = getProperty fallbackPrices u in if truthy fb then the fb else Val 5)
            = Val (case map_of fallbackPrices u of Some p \<Rightarrow> p | None \<Rightarrow> 5)"
    using truthy_getProperty[OF fallback_nonzero assms]
    by (cases "map_of fallbackPrices u") (auto simp: Let_def)
  show ?thesis
  proof (cases "List.find (\<lambda>(k, s). ?P k) priceDatabase")
    case None
    then have "findMaterialKey materialName = None"
      by (simp add: findMaterialKey_def find_keys)
    with None fb show ?thesis
      by (simp add: getMarketPrice_def specMarketPrice_def Let_def)
  next
    case (Some ks)
    obtain k sub where ks: "ks = (k, sub)" by (cases ks)
    have key: "findMaterialKey materialName = Some k"
      using Some ks by (simp add: findMaterialKey_def find_keys)
    have look: "map_of priceDatabase k = Some sub"
      using Some ks by (simp add: find_map_of)
    have "(k, sub) \<in> set priceDatabase"
      using Some ks find_mem by fastforce
    with prices_nonzero have ne: "k \<noteq> []" and nz: "list_all (\<lambda>(u, p). p \<noteq> 0) sub"
      by (auto simp: list_all_iff)
    show ?thesis
    proof (cases "map_of sub u")
      case None
      then have "\<not> truthy (getProperty sub u)"
        using truthy_getProperty(1)[OF nz assms] by simp
      with None key look ne fb Some ks show ?thesis
        by (simp add: getMarketPrice_def specMarketPrice_def Let_def)
    next
      case (Some p)
      then have "getProperty sub u = Some (Val p)" and "truthy (getProperty sub u)"
        using truthy_getProperty[OF nz assms] by auto
      with Some key look ne \<open>List.find (\<lambda>(k, s). ?P k) priceDatabase = Some ks\<close> ks show ?thesis
        by (simp add: getMarketPrice_def specMarketPrice_def Let_def)
    qed
  qed
qed

lemma getMarketPrice_examples:
  "getMarketPrice ''ready mix concrete'' ''cu yd'' = Val 120
   \<and> getMarketPrice ''mystery material'' ''pieces'' = Val 10
   \<and> getMarketPrice ''mystery material'' ''exotic-unit'' = Val 5"
  by code_simp

text \<open>
  C2. The claim is that for every name and unit the price is the entry of the first declared
  keyword found in the name, else the default of the unit, else 5. For the unit
  \<open>constructor\<close>, which is in neither table, the lookup \<open>fallbackPrices[unit]\<close> finds the member
  \<open>constructor\<close> that the table inherits from \<open>Object.prototype\<close>; it is not falsy, so it is
  returned instead of 5, although the function is declared to return a number. The same
  happens in the sub-table of a keyword that matches.
\<close>

theorem getMarketPrice_inherited_member:
  "getMarketPrice ''mystery material'' ''constructor'' = Inherited ''constructor''
   \<and> getMarketPrice ''Nails'' ''toString'' = Inherited ''toString''
   \<and> specMarketPrice ''mystery material'' ''constructor'' = 5"
  by code_simp

section \<open>Quotation\<close>

lemma foldl_totalPrice: "foldl (\<lambda>sum m. sum + totalPrice m) a ms = a + sum_list (map totalPrice ms)"
  by (induction ms arbitrary: a) simp_all

text \<open>
  C3. For every list of priced materials the subtotal is the sum of their \<open>totalPrice\<close>, the
  labor cost is 0.6 times the subtotal, the equipment cost 0.15 times the subtotal, the
  overhead 0.2 times the sum of these three, and the total cost the sum of all four; when the
  prices sum to 1000 these are 600, 150, 350 and 2100; for the empty list all five are 0.
  \<open>generateQuotation\<close> has no throwing step on a list of materials and a file name.
\<close>

theorem quotation_costs:
  "subtotal (generateQuotation ms v d) = sum_list (map totalPrice ms)
   \<and> laborCost (generateQuotation ms v d) = 0.6 * subtotal (generateQuotation ms v d)
   \<and> equipmentCost (generateQuotation ms v d) = 0.15 * subtotal (generateQuotation ms v d)
   \<and> overhead (generateQuotation ms v d) =
       0.2 * (subtotal (generateQuotation ms v d) + laborCost (generateQuotation ms v d)
              + equipmentCost (generateQuotation ms v d))
   \<and> totalCost (generateQuotation ms v d) =
       subtotal (generateQuotation ms v d) + laborCost (generateQuotation ms v d)
       + equipmentCost (generateQuotation ms v d) + overhead (generateQuotation ms v d)
   \<and> (sum_list (map totalPrice ms) = 1000 \<longrightarrow>
        laborCost (generateQuotation ms v d) = 600
        \<and> equipmentCost (generateQuotation ms v d) = 150
        \<and> overhead (generateQuotation ms v d) = 350
        \<and> totalCost (generateQuotation ms v d) = 2100)
   \<and> subtotal (generateQuotation [] v d) = 0
   \<and> laborCost (generateQuotation [] v d) = 0
   \<and> equipmentCost (generateQuotation [] v d) = 0
   \<and> overhead (generateQuotation [] v d) = 0
   \<and> totalCost (generateQuotation [] v d) = 0"
  by (simp add: generateQuotation_def Let_def foldl_totalPrice)

theorem quotation_costs_witness:
  "sum_list (map totalPrice pricedSample) = 1000
   \<and> subtotal (generateQuotation pricedSample ''site.mp4'' ''1/2/2025'') = 1000
   \<and> laborCost (generateQuotation pricedSample ''site.mp4'' ''1/2/2025'') = 600
   \<and> equipmentCost (generateQuotation pricedSample ''site.mp4'' ''1/2/2025'') = 150
   \<and> overhead (generateQuotation pricedSample ''site.mp4'' ''1/2/2025'') = 350
   \<and> totalCost (generateQuotation pricedSample ''site.mp4'' ''1/2/2025'') = 2100"
proof -
  have h: "sum_list (map totalPrice pricedSample) = 1000"
    by (simp add: pricedSample_def)
  from quotation_costs[of pricedSample "''site.mp4''" "''1/2/2025''"] h show ?thesis
    by simp
qed

section \<open>Session store\<close>

lemma uploadLoop_Inr:
  "uploadLoop extname clk i files v = Inr v' \<Longrightarrow>
     exts v' = exts v @ map (getExtension extname) files
     \<and> length (assets v') = length (assets v) + length files
     \<and> (video v' \<longleftrightarrow> video v \<or> (\<exists>f\<in>set files. mediaType (getExtension extname f) = ''video''))
     \<and> (\<forall>f\<in>set files. hasProperty kSupportedList (getExtension extname f))"
proof (induction files arbitrary: i v)
  case Nil
  then show ?case by simp
next
  case (Cons f files)
  let ?ext = "getExtension extname f"
  from Cons.prems have sup: "hasProperty kSupportedList ?ext"
    by (auto simp: Let_def split: if_splits)
  let ?v = "\<lparr>assets = assets v @ [''dummy_asset_'' @ showNat (clk i)],
             exts = exts v @ [?ext],
             markup = markup v @ ''<'' @ mediaType ?ext @ '' src='' @ [CHR 0x22] @ ''data:''
                        @ mimeType ?ext @ '';asset_id,'' @ (''dummy_asset_'' @ showNat (clk i))
                        @ [CHR 0x22] @ '' />'',
             video = (if mediaType ?ext = ''video'' then True else video v)\<rparr>"
  from Cons.prems sup have "uploadLoop extname clk (Suc i) files ?v = Inr v'"
    by (simp add: Let_def uploadAsset_def)
  from Cons.IH[OF this] sup show ?case by auto
qed

lemma upload_cases:
  "upload extname e files store = (r, store') \<Longrightarrow>
     (status r \<noteq> 200 \<and> store' = store)
     \<or> (\<exists>sid d. status r = 200 \<and> body r = UploadBody sid ''Files uploaded successfully''
            \<and> store' = store(sid \<mapsto> d)
            \<and> files \<noteq> []
            \<and> (\<forall>f\<in>set files. hasProperty kSupportedList (getExtension extname f))
            \<and> extList d = map (getExtension extname) files
            \<and> length (assetList d) = length files
            \<and> (hasVideo d \<longleftrightarrow> (\<exists>f\<in>set files. mediaType (getExtension extname f) = ''video''))
            \<and> (hasVideo d \<longrightarrow> length files = 1))"
proof (cases "files = []")
  case True
  assume "upload extname e files store = (r, store')"
  with True show ?thesis by (auto simp: upload_def)
next
  case False
  assume u: "upload extname e files store = (r, store')"
  show ?thesis
  proof (cases "uploadLoop extname (clock e) 0 files \<lparr>assets = [], exts = [], markup = [], video = False\<rparr>")
    case (Inl msg)
    with u False show ?thesis by (auto simp: upload_def caught_def)
  next
    case (Inr v)
    from uploadLoop_Inr[OF Inr] have
      p: "exts v = map (getExtension extname) files" "length (assets v) = length files"
         "video v \<longleftrightarrow> (\<exists>f\<in>set files. mediaType (getExtension extname f) = ''video'')"
         "\<forall>f\<in>set files. hasProperty kSupportedList (getExtension extname f)"
      by auto
    show ?thesis
    proof (cases "video v \<and> length files \<noteq> 1")
      case True
      with u False Inr show ?thesis by (auto simp: upload_def caught_def)
    next
      case F2: False
      define sid where "sid = ''session_'' @ showNat (clock e (length files)) @ ''_'' @ random36 e"
      define d where "d = \<lparr>assetList = assets v, extList = exts v, mediaContent = markup v,
                            uploadedAt = clock e (Suc (length files)), hasVideo = video v\<rparr>"
      from u False Inr F2 have r: "r = \<lparr>status = 200, body = UploadBody sid ''Files uploaded successfully''\<rparr>"
        and s: "store' = store(sid \<mapsto> d)"
        by (auto simp: upload_def Let_def sid_def d_def)
      have "status r = 200 \<and> body r = UploadBody sid ''Files uploaded successfully''
            \<and> store' = store(sid \<mapsto> d)
            \<and> files \<noteq> []
            \<and> (\<forall>f\<in>set files. hasProperty kSupportedList (getExtension extname f))
            \<and> extList d = map (getExtension extname) files
            \<and> length (assetList d) = length files
            \<and> (hasVideo d \<longleftrightarrow> (\<exists>f\<in>set files. mediaType (getExtension extname f) = ''video''))
            \<and> (hasVideo d \<longrightarrow> length files = 1)"
        using r s False p F2 by (auto simp: d_def)
      then show ?thesis by blast
    qed
  qed
qed

lemma upload_rejects:
  assumes "(\<exists>f\<in>set files. \<not> hasProperty kSupportedList (getExtension extname f))
           \<or> ((\<exists>f\<in>set files. mediaType (getExtension extname f) = ''video'') \<and> length files \<noteq> 1)"
  shows "status (fst (upload extname e files store)) = 500 \<and> snd (upload extname e files store) = store"
proof -
  from assms have ne: "files \<noteq> []" by auto
  show ?thesis
  proof (cases "uploadLoop extname (clock e) 0 files \<lparr>assets = [], exts = [], markup = [], video = False\<rparr>")
    case (Inl msg)
    with ne show ?thesis by (simp add: upload_def caught_def)
  next
    case (Inr v)
    from uploadLoop_Inr[OF Inr] assms have "video v \<and> length files \<noteq> 1" by auto
    with ne Inr show ?thesis by (simp add: upload_def caught_def)
  qed
qed

lemma chat_store: "snd (chat b store) = store"
  by (auto simp: chat_def split: sum.splits)

lemma cleanup_cases:
  "cleanup b store = (r, store') \<Longrightarrow>
     (status r = 404 \<and> store' = store)
     \<or> (\<exists>sid. sessionId b = Some sid \<and> sid \<in> dom store \<and> status r = 200 \<and> store' = store(sid := None))"
  by (auto simp: cleanup_def falsy_def split: if_splits)

lemma POST_cases:
  assumes "POST extname e req store = (r, store')"
  shows "store' = store
     \<or> (\<exists>files sid d. includesStr (contentType req) ''multipart/form-data'' \<and> falsy (action req)
           \<and> payload req = FormData files
           \<and> status r = 200 \<and> body r = UploadBody sid ''Files uploaded successfully''
           \<and> store' = store(sid \<mapsto> d)
           \<and> files \<noteq> []
           \<and> (\<forall>f\<in>set files. hasProperty kSupportedList (getExtension extname f))
           \<and> extList d = map (getExtension extname) files
           \<and> length (assetList d) = length files
           \<and> (hasVideo d \<longleftrightarrow> (\<exists>f\<in>set files. mediaType (getExtension extname f) = ''video''))
           \<and> (hasVideo d \<longrightarrow> length files = 1))
     \<or> (\<exists>b sid. action req = Some ''cleanup'' \<and> payload req = Json b \<and> sessionId b = Some sid
           \<and> sid \<in> dom store \<and> status r = 200 \<and> store' = store(sid := None))"
proof (cases "includesStr (contentType req) ''multipart/form-data'' \<and> falsy (action req)")
  case True
  show ?thesis
  proof (cases "payload req")
    case (FormData files)
    with assms True have "upload extname e files store = (r, store')"
      by (simp add: POST_def)
    from upload_cases[OF this] True FormData show ?thesis by blast
  next
    case (Json b)
    with assms True show ?thesis by (simp add: POST_def)
  next
    case Unreadable
    with assms True show ?thesis by (simp add: POST_def)
  qed
next
  case False
  show ?thesis
  proof (cases "action req = Some ''chat''")
    case True
    have "store' = store"
    proof (cases "payload req")
      case (Json b)
      with assms False True have "chat b store = (r, store')" by (auto simp: POST_def)
      then have "snd (chat b store) = store'" by simp
      then show ?thesis by (simp add: chat_store)
    next
      case (FormData x)
      with assms False True show ?thesis by (auto simp: POST_def)
    next
      case Unreadable
      with assms False True show ?thesis by (auto simp: POST_def)
    qed
    then show ?thesis by simp
  next
    case nchat: False
    show ?thesis
    proof (cases "action req = Some ''cleanup''")
      case True
      show ?thesis
      proof (cases "payload req")
        case (Json b)
        with assms False nchat True have "cleanup b store = (r, store')"
          by (auto simp: POST_def)
        from cleanup_cases[OF this] True Json show ?thesis by blast
      next
        case (FormData x)
        with assms False nchat True show ?thesis by (auto simp: POST_def)
      next
        case Unreadable
        with assms False nchat True show ?thesis by (auto simp: POST_def)
      qed
    next
      case False
      with assms nchat \<open>\<not> (includesStr (contentType req) ''multipart/form-data'' \<and> falsy (action req))\<close>
      show ?thesis by (auto simp: POST_def)
    qed
  qed
qed

lemma created_singleVideo:
  assumes "extList d = map g files" "length (assetList d) = length files"
    "hasVideo d \<longleftrightarrow> (\<exists>f\<in>set files. mediaType (g f) = ''video'')"
    "hasVideo d \<longrightarrow> length files = 1"
  shows "singleVideo d"
proof (cases "hasVideo d")
  case True
  with assms have "length (extList d) = 1" by simp
  then have "length (filter (\<lambda>x. mediaType x = ''video'') (extList d)) \<le> 1"
    by (metis length_filter_le)
  with assms True show ?thesis by (auto simp: singleVideo_def)
next
  case False
  with assms have "filter (\<lambda>x. mediaType x = ''video'') (extList d) = []"
    by (auto simp: filter_empty_conv)
  with assms False show ?thesis by (auto simp: singleVideo_def)
qed

lemma reachable_singleVideo:
  "reachable extname store \<Longrightarrow> store sid = Some d \<Longrightarrow> singleVideo d"
proof (induction arbitrary: sid d rule: reachable.induct)
  case start
  then show ?case by simp
next
  case (step store e req)
  obtain r store' where p: "POST extname e req store = (r, store')" by (cases "POST extname e req store")
  with step.prems have look: "store' sid = Some d" by simp
  from POST_cases[OF p] show ?case
  proof (elim disjE exE conjE)
    assume "store' = store"
    with look step.IH show ?thesis by simp
  next
    fix files sid' d'
    assume a: "store' = store(sid' \<mapsto> d')" "extList d' = map (getExtension extname) files"
      "length (assetList d') = length files"
      "hasVideo d' = (\<exists>f\<in>set files. mediaType (getExtension extname f) = ''video'')"
      "hasVideo d' \<longrightarrow> length files = 1"
    show ?thesis
    proof (cases "sid = sid'")
      case True
      with a look have "d = d'" by simp
      with a created_singleVideo show ?thesis by blast
    next
      case False
      with a look step.IH show ?thesis by simp
    qed
  next
    fix b sid'
    assume "store' = store(sid' := None)"
    with look step.IH show ?thesis by (auto split: if_splits)
  qed
qed

lemma chat_absent_session:
  "store sid = None \<Longrightarrow> sid \<noteq> [] \<Longrightarrow> q \<noteq> [] \<Longrightarrow>
     status (fst (chat \<lparr>sessionId = Some sid, query = Some q, stream = st\<rparr> store)) = 500"
  by (simp add: chat_def falsy_def chatWithMediaNvcf_def caught_def)

text \<open>
  C5. The claim is that once a session is deleted every later lookup of it, a chat request
  included, is answered with a not-found response and not with an internal server error.
  After an upload and the cleanup of its session, a second cleanup is answered with 404
  \<open>Session not found\<close>, but the chat request with that session identifier is answered with
  status 500: the chat branch reads \<open>sessions.get(sessionId)!\<close> without the test the cleanup
  branch makes, and \<open>chatWithMediaNvcf\<close> throws a \<open>TypeError\<close> on \<open>undefined\<close>.
\<close>

theorem chat_after_cleanup_is_500:
  "fst (POST extnameBase sampleEnv (uploadOf [''wall.png'']) Map.empty) =
     \<lparr>status = 200, body = UploadBody ''session_5_abc'' ''Files uploaded successfully''\<rparr>
   \<and> fst (POST extnameBase sampleEnv (jsonOf ''cleanup'' ''session_5_abc'' []) afterUpload) =
     \<lparr>status = 200, body = SuccessBody\<rparr>
   \<and> afterCleanup ''session_5_abc'' = None
   \<and> fst (POST extnameBase sampleEnv (jsonOf ''chat'' ''session_5_abc'' ''How long is the wall?'')
          afterCleanup) =
     \<lparr>status = 500,
      body = ErrorBody (''TypeError: Cannot read properties of undefined (reading ''
                        @ [CHR 0x27] @ ''assetList'' @ [CHR 0x27] @ '')'')\<rparr>
   \<and> fst (POST extnameBase sampleEnv (jsonOf ''cleanup'' ''session_5_abc'' []) afterCleanup) =
     \<lparr>status = 404, body = ErrorBody ''Session not found''\<rparr>"
  by code_simp

text \<open>
  C6, as stated: a stored session is never modified except by deletion. An upload whose
  generated identifier is the one of a stored session replaces that session: with the clock
  and the random suffix of the first upload, a second upload stores its own data under
  \<open>session_5_abc\<close>.
\<close>

theorem sessions_overwritten_on_same_id:
  "reachable extnameBase afterUpload
   \<and> map_option extList (afterUpload ''session_5_abc'') = Some [''png'']
   \<and> map_option extList
        (snd (POST extnameBase sampleEnv (uploadOf [''plan.jpg'']) afterUpload) ''session_5_abc'')
       = Some [''jpg'']"
proof -
  have "reachable extnameBase afterUpload"
    unfolding afterUpload_def by (rule reachable.step[OF reachable.start])
  moreover have "map_option extList (afterUpload ''session_5_abc'') = Some [''png'']"
    by code_simp
  moreover have "map_option extList
        (snd (POST extnameBase sampleEnv (uploadOf [''plan.jpg'']) afterUpload) ''session_5_abc'')
       = Some [''jpg'']"
    by code_simp
  ultimately show ?thesis by simp
qed

text \<open>
  C6, amended: in every reachable session map every stored session has at most one video
  asset, and one with \<open>hasVideo\<close> holds exactly one asset; an upload with a video file and a
  number of files other than one is rejected with status 500 and leaves the map as it is; and
  a request leaves a stored session as it is, or deletes it (the cleanup of that session), or
  is an upload that answers with this very session identifier.
\<close>

theorem stored_sessions_single_video:
  assumes "reachable extname store"
  shows "(store sid = Some d \<longrightarrow> singleVideo d)
     \<and> (includesStr (contentType req) ''multipart/form-data'' \<and> falsy (action req)
          \<and> payload req = FormData files
          \<and> (\<exists>f\<in>set files. mediaType (getExtension extname f) = ''video'') \<and> length files \<noteq> 1
        \<longrightarrow> status (fst (POST extname e req store)) = 500
            \<and> snd (POST extname e req store) = store)
     \<and> (store sid = Some d \<longrightarrow>
          snd (POST extname e req store) sid = Some d
          \<or> (snd (POST extname e req store) sid = None \<and> action req = Some ''cleanup''
              \<and> (\<exists>b. payload req = Json b \<and> sessionId b = Some sid))
          \<or> body (fst (POST extname e req store)) = UploadBody sid ''Files uploaded successfully'')"
proof (intro conjI impI)
  assume "store sid = Some d"
  with assms show "singleVideo d" by (rule reachable_singleVideo)
next
  assume a: "includesStr (contentType req) ''multipart/form-data'' \<and> falsy (action req)
          \<and> payload req = FormData files
          \<and> (\<exists>f\<in>set files. mediaType (getExtension extname f) = ''video'') \<and> length files \<noteq> 1"
  then have P: "POST extname e req store = upload extname e files store"
    by (simp add: POST_def)
  from a upload_rejects[of files extname e store] P
  show "status (fst (POST extname e req store)) = 500" by simp
  from a upload_rejects[of files extname e store] P
  show "snd (POST extname e req store) = store" by simp
next
  assume look: "store sid = Some d"
  obtain r store' where p: "POST extname e req store = (r, store')"
    by (cases "POST extname e req store")
  from POST_cases[OF p] have
    "store' sid = Some d
     \<or> (store' sid = None \<and> action req = Some ''cleanup''
         \<and> (\<exists>b. payload req = Json b \<and> sessionId b = Some sid))
     \<or> body r = UploadBody sid ''Files uploaded successfully''"
  proof (elim disjE exE conjE)
    assume "store' = store"
    with look show ?thesis by simp
  next
    fix files' sid' d'
    assume "store' = store(sid' \<mapsto> d')" "body r = UploadBody sid' ''Files uploaded successfully''"
    with look show ?thesis by (cases "sid = sid'") auto
  next
    fix b sid'
    assume "store' = store(sid' := None)" "action req = Some ''cleanup''" "payload req = Json b"
      "sessionId b = Some sid'"
    with look show ?thesis by (cases "sid = sid'") auto
  qed
  with p show "snd (POST extname e req store) sid = Some d
          \<or> (snd (POST extname e req store) sid = None \<and> action req = Some ''cleanup''
              \<and> (\<exists>b. payload req = Json b \<and> sessionId b = Some sid))
          \<or> body (fst (POST extname e req store)) = UploadBody sid ''Files uploaded successfully''"
    by simp
qed

theorem stored_sessions_single_video_witness:
  "reachable extnameBase afterVideo
   \<and> afterVideo ''session_5_abc'' \<noteq> None
   \<and> hasVideo (the (afterVideo ''session_5_abc''))
   \<and> singleVideo (the (afterVideo ''session_5_abc''))
   \<and> length (assetList (the (afterVideo ''session_5_abc''))) = 1
   \<and> status (fst (POST extnameBase sampleEnv (uploadOf [''clip.mp4'', ''wall.png'']) afterVideo)) = 500
   \<and> snd (POST extnameBase sampleEnv (uploadOf [''clip.mp4'', ''wall.png'']) afterVideo) = afterVideo
   \<and> snd (POST extnameBase sampleEnv (uploadOf [''clip.mp4'', ''wall.png'']) afterVideo)
        ''session_5_abc'' = afterVideo ''session_5_abc''"
proof -
  let ?req = "uploadOf [''clip.mp4'', ''wall.png'']"
  let ?d = "the (afterVideo ''session_5_abc'')"
  have r: "reachable extnameBase afterVideo"
    unfolding afterVideo_def by (rule reachable.step[OF reachable.start])
  have ne: "afterVideo ''session_5_abc'' \<noteq> None" by code_simp
  then have look: "afterVideo ''session_5_abc'' = Some ?d" by simp
  have hv: "hasVideo ?d" by code_simp
  have h: "includesStr (contentType ?req) ''multipart/form-data'' \<and> falsy (action ?req)
          \<and> payload ?req = FormData [''clip.mp4'', ''wall.png'']
          \<and> (\<exists>f\<in>set [''clip.mp4'', ''wall.png''].
                 mediaType (getExtension extnameBase f) = ''video'')
          \<and> length [''clip.mp4'', ''wall.png''] \<noteq> 1"
    by code_simp
  note t = stored_sessions_single_video[OF r, of "''session_5_abc''" ?d ?req
            "[''clip.mp4'', ''wall.png'']" sampleEnv]
  from t look have sv: "singleVideo ?d" by blast
  from t h have rej: "status (fst (POST extnameBase sampleEnv ?req afterVideo)) = 500"
    "snd (POST extnameBase sampleEnv ?req afterVideo) = afterVideo" by blast+
  from sv hv have "length (assetList ?d) = 1" by (simp add: singleVideo_def)
  with r ne hv sv rej show ?thesis by simp
qed

text \<open>
  C10. For every upload request (a multipart content type and no action): a response other
  than the success response leaves the session map unchanged; no files give status 400, a
  file whose extension fails the test \<open>ext in kSupportedList\<close> gives status 500, a video among
  several files gives status 500, each with the map unchanged; and the map changes only when
  there is at least one file, every file has passed that test and a video, if any, is the
  only file.
\<close>

theorem upload_error_leaves_sessions:
  assumes "includesStr (contentType req) ''multipart/form-data''" and "falsy (action req)"
  shows "(status (fst (POST extname e req store)) \<noteq> 200 \<longrightarrow> snd (POST extname e req store) = store)
     \<and> (payload req = FormData [] \<longrightarrow>
          status (fst (POST extname e req store)) = 400 \<and> snd (POST extname e req store) = store)
     \<and> (payload req = FormData files
          \<and> (\<exists>f\<in>set files. \<not> hasProperty kSupportedList (getExtension extname f)) \<longrightarrow>
          status (fst (POST extname e req store)) = 500 \<and> snd (POST extname e req store) = store)
     \<and> (payload req = FormData files
          \<and> (\<exists>f\<in>set files. mediaType (getExtension extname f) = ''video'') \<and> length files \<noteq> 1 \<longrightarrow>
          status (fst (POST extname e req store)) = 500 \<and> snd (POST extname e req store) = store)
     \<and> (snd (POST extname e req store) \<noteq> store \<longrightarrow>
          (\<exists>fs. payload req = FormData fs \<and> fs \<noteq> []
             \<and> (\<forall>f\<in>set fs. hasProperty kSupportedList (getExtension extname f))
             \<and> ((\<exists>f\<in>set fs. mediaType (getExtension extname f) = ''video'') \<longrightarrow> length fs = 1)))"
proof -
  obtain r store' where p: "POST extname e req store = (r, store')"
    by (cases "POST extname e req store")
  have c1: "status r \<noteq> 200 \<longrightarrow> store' = store"
    using POST_cases[OF p] assms by auto
  have c2: "payload req = FormData [] \<longrightarrow> status r = 400 \<and> store' = store"
    using p assms by (auto simp: POST_def upload_def)
  have bad: "status r = 500 \<and> store' = store"
    if pl: "payload req = FormData files"
      and b: "(\<exists>f\<in>set files. \<not> hasProperty kSupportedList (getExtension extname f))
              \<or> ((\<exists>f\<in>set files. mediaType (getExtension extname f) = ''video'') \<and> length files \<noteq> 1)"
  proof -
    from p assms pl have u: "upload extname e files store = (r, store')" by (simp add: POST_def)
    with upload_rejects[OF b, of e store] show ?thesis by simp
  qed
  have c5: "store' \<noteq> store \<longrightarrow>
          (\<exists>fs. payload req = FormData fs \<and> fs \<noteq> []
             \<and> (\<forall>f\<in>set fs. hasProperty kSupportedList (getExtension extname f))
             \<and> ((\<exists>f\<in>set fs. mediaType (getExtension extname f) = ''video'') \<longrightarrow> length fs = 1))"
  proof
    assume ch: "store' \<noteq> store"
    from POST_cases[OF p] ch assms(2) show "\<exists>fs. payload req = FormData fs \<and> fs \<noteq> []
             \<and> (\<forall>f\<in>set fs. hasProperty kSupportedList (getExtension extname f))
             \<and> ((\<exists>f\<in>set fs. mediaType (getExtension extname f) = ''video'') \<longrightarrow> length fs = 1)"
      by (elim disjE exE conjE) (auto simp: falsy_def)
  qed
  from c1 c2 bad c5 p show ?thesis by simp
qed

theorem upload_error_leaves_sessions_witness:
  "includesStr (contentType (uploadOf [''notes.txt''])) ''multipart/form-data''
   \<and> falsy (action (uploadOf [''notes.txt'']))
   \<and> status (fst (POST extnameBase sampleEnv (uploadOf [''notes.txt'']) afterVideo)) = 500
   \<and> snd (POST extnameBase sampleEnv (uploadOf [''notes.txt'']) afterVideo) = afterVideo
   \<and> status (fst (POST extnameBase sampleEnv (uploadOf []) afterVideo)) = 400
   \<and> snd (POST extnameBase sampleEnv (uploadOf []) afterVideo) = afterVideo
   \<and> status (fst (POST extnameBase sampleEnv (uploadOf [''clip.mp4'', ''wall.png'']) afterVideo)) = 500
   \<and> snd (POST extnameBase sampleEnv (uploadOf [''clip.mp4'', ''wall.png'']) afterVideo) = afterVideo"
proof -
  have c: "\<And>fs1. includesStr (contentType (uploadOf fs1)) ''multipart/form-data''"
    by (simp add: uploadOf_def)
  have f: "\<And>fs. falsy (action (uploadOf fs))" by (simp add: uploadOf_def falsy_def)
  have pl: "\<And>fs. payload (uploadOf fs) = FormData fs" by (simp add: uploadOf_def)
  have u: "\<exists>f\<in>set [''notes.txt'']. \<not> hasProperty kSupportedList (getExtension extnameBase f)"
    by code_simp
  have v: "(\<exists>f\<in>set [''clip.mp4'', ''wall.png'']. mediaType (getExtension extnameBase f) = ''video'')
           \<and> length [''clip.mp4'', ''wall.png''] \<noteq> 1"
    by code_simp
  note w = upload_error_leaves_sessions[OF c f, where extname = extnameBase and e = sampleEnv
              and store = afterVideo]
  from w[where fs1 = "[''notes.txt'']" and files = "[''notes.txt'']"] pl u
  have 1: "status (fst (POST extnameBase sampleEnv (uploadOf [''notes.txt'']) afterVideo)) = 500
     \<and> snd (POST extnameBase sampleEnv (uploadOf [''notes.txt'']) afterVideo) = afterVideo"
    by blast
  from w[where fs1 = "[]" and files = "[]"] pl
  have 2: "status (fst (POST extnameBase sampleEnv (uploadOf []) afterVideo)) = 400
     \<and> snd (POST extnameBase sampleEnv (uploadOf []) afterVideo) = afterVideo"
    by blast
  from w[where fs1 = "[''clip.mp4'', ''wall.png'']" and files = "[''clip.mp4'', ''wall.png'']"]
    pl v
  have 3: "status (fst (POST extnameBase sampleEnv (uploadOf [''clip.mp4'', ''wall.png'']) afterVideo)) = 500
     \<and> snd (POST extnameBase sampleEnv (uploadOf [''clip.mp4'', ''wall.png'']) afterVideo) = afterVideo"
    by blast
  from 1 2 3 c f show ?thesis by simp
qed

section \<open>Export of a quotation\<close>

text \<open>
  C9. For every quotation posted, when the rendering to PDF fails at any step, the response
  of the export handler has status 200, the content type \<open>text/html\<close>, a
  \<open>Content-Disposition\<close> of an attachment, and as body the document that
  \<open>generateProfessionalHTML\<close> gives for the quotation; no error response results.
\<close>

theorem export_falls_back_to_html:
  assumes "\<forall>pdfBuffer. attempt \<noteq> Rendered pdfBuffer"
  shows "exportPOST html now attempt (ExportJson (Some quotation)) =
     \<lparr>statusCode = 200, contentTypeHeader = ''text/html'',
      contentDisposition =
        Some (''attachment; filename='' @ [CHR 0x22] @ ''quotation-'' @ showNat now @ ''.html''
              @ [CHR 0x22]),
      content = Html (html quotation)\<rparr>"
  using assms by (cases attempt) (simp_all add: exportPOST_def)

theorem export_falls_back_to_html_witness:
  "exportPOST sampleHtml 7 LaunchFails
      (ExportJson (Some (generateQuotation [] ''site.mp4'' ''1/2/2025''))) =
     \<lparr>statusCode = 200, contentTypeHeader = ''text/html'',
      contentDisposition =
        Some (''attachment; filename='' @ [CHR 0x22] @ ''quotation-7.html'' @ [CHR 0x22]),
      content = Html ''<h2>site</h2>''\<rparr>"
proof -
  have h: "\<forall>pdfBuffer. LaunchFails \<noteq> Rendered pdfBuffer" by simp
  have s: "showNat 7 = ''7''" by code_simp
  have p: "sampleHtml (generateQuotation [] ''site.mp4'' ''1/2/2025'') = ''<h2>site</h2>''"
    by code_simp
  from export_falls_back_to_html[OF h, of sampleHtml 7 "generateQuotation [] ''site.mp4'' ''1/2/2025''"]
  show ?thesis by (simp add: s p)
qed

end
